theory Spec2Isabelle
  imports Main
begin

unbundle bit_operations_syntax

section \<open>Python string primitives used by the exporter\<close>

text \<open>
  Strings are ASCII text (\<open>char list\<close>).  The functions below are the \<open>str\<close> methods
  and conversions that \<^verbatim>\<open>calllog_exporter.py\<close> calls: \<^verbatim>\<open>str(int)\<close>, \<^verbatim>\<open>int(str)\<close>,
  \<^verbatim>\<open>capitalize\<close>, \<^verbatim>\<open>replace\<close>, \<^verbatim>\<open>split(' ')\<close>, \<^verbatim>\<open>join\<close>, \<^verbatim>\<open>rjust\<close> and the
  \<^verbatim>\<open>%0Nd\<close> format.
\<close>

definition digit_char :: "nat \<Rightarrow> char" where
  "digit_char d = ''0123456789'' ! d"

definition is_digit :: "char \<Rightarrow> bool" where
  "is_digit c = (c \<in> set ''0123456789'')"

definition digit_val :: "char \<Rightarrow> nat" where
  "digit_val c = (case map_of (zip ''0123456789'' [0, 1, 2, 3, 4, 5, 6, 7, 8, 9]) c of
                    Some d \<Rightarrow> d | None \<Rightarrow> 0)"

fun str_nat :: "nat \<Rightarrow> string" where
  "str_nat n = (if n < 10 then [digit_char n] else str_nat (n div 10) @ [digit_char (n mod 10)])"

declare str_nat.simps [simp del]

text \<open>\<^verbatim>\<open>str(n)\<close> for an \<^verbatim>\<open>int\<close>.\<close>

definition str_int :: "int \<Rightarrow> string" where
  "str_int i = (if i < 0 then CHR ''-'' # str_nat (nat (- i)) else str_nat (nat i))"

text \<open>\<^verbatim>\<open>s.rjust(w, c)\<close>.\<close>

definition rjust :: "nat \<Rightarrow> char \<Rightarrow> string \<Rightarrow> string" where
  "rjust w c s = replicate (w - length s) c @ s"

text \<open>\<^verbatim>\<open>'%0wd' % n\<close>: the sign comes first and counts in the width.\<close>

definition fmt_0d :: "nat \<Rightarrow> int \<Rightarrow> string" where
  "fmt_0d w n = (if n < 0 then CHR ''-'' # rjust (w - 1) CHR ''0'' (str_nat (nat (- n)))
                 else rjust w CHR ''0'' (str_nat (nat n)))"

definition py_upper :: "char \<Rightarrow> char" where
  "py_upper c = (case map_of (zip ''abcdefghijklmnopqrstuvwxyz'' ''ABCDEFGHIJKLMNOPQRSTUVWXYZ'') c of
                   Some u \<Rightarrow> u | None \<Rightarrow> c)"

definition py_lower :: "char \<Rightarrow> char" where
  "py_lower c = (case map_of (zip ''ABCDEFGHIJKLMNOPQRSTUVWXYZ'' ''abcdefghijklmnopqrstuvwxyz'') c of
                   Some l \<Rightarrow> l | None \<Rightarrow> c)"

text \<open>\<^verbatim>\<open>s.capitalize()\<close>: first character upper case, the rest lower case.\<close>

fun capitalize :: "string \<Rightarrow> string" where
  "capitalize [] = []"
| "capitalize (c # cs) = py_upper c # map py_lower cs"

text \<open>\<^verbatim>\<open>s.split(sep)\<close> for a one-character separator: empty pieces are kept.\<close>

fun py_split :: "char \<Rightarrow> string \<Rightarrow> string list" where
  "py_split sep [] = [[]]"
| "py_split sep (c # cs) =
     (if c = sep then [] # py_split sep cs
      else (case py_split sep cs of
              [] \<Rightarrow> [[c]]
            | w # ws \<Rightarrow> (c # w) # ws))"

text \<open>\<^verbatim>\<open>sep.join(xs)\<close>.\<close>

fun py_join :: "string \<Rightarrow> string list \<Rightarrow> string" where
  "py_join sep [] = []"
| "py_join sep [x] = x"
| "py_join sep (x # y # ys) = x @ sep @ py_join sep (y # ys)"

text \<open>\<^verbatim>\<open>s.replace(old, new)\<close>: leftmost non-overlapping occurrences; an empty \<open>old\<close>
  matches before every character and at the end.\<close>

fun replace_ne :: "string \<Rightarrow> string \<Rightarrow> nat \<Rightarrow> string \<Rightarrow> string" where
  "replace_ne old new skip [] = []"
| "replace_ne old new (Suc k) (c # cs) = replace_ne old new k cs"
| "replace_ne old new 0 (c # cs) =
     (if take (length old) (c # cs) = old
      then new @ replace_ne old new (length old - 1) cs
      else c # replace_ne old new 0 cs)"

definition py_replace :: "string \<Rightarrow> string \<Rightarrow> string \<Rightarrow> string" where
  "py_replace old new s =
     (if old = [] then new @ concat (map (\<lambda>c. c # new) s) else replace_ne old new 0 s)"

text \<open>The label rule shared by \<^verbatim>\<open>PrettyEnum.__str__\<close>, \<^verbatim>\<open>PrettyFlag.__str__\<close> and
  \<^verbatim>\<open>csv_header\<close>: \<^verbatim>\<open>' '.join(w.capitalize() for w in s.split(' '))\<close>.\<close>

definition cap_words :: "string \<Rightarrow> string" where
  "cap_words s = py_join '' '' (map capitalize (py_split CHR '' '' s))"

section \<open>Raw JSON values and exceptions\<close>

text \<open>
  The raw value of a field after \<^verbatim>\<open>json.load\<close>.  The source schema stores strings,
  integers, booleans and null; floats and nested containers are outside this model.
\<close>

datatype jvalue = JNull | JBool bool | JInt int | JStr string

text \<open>A caller-supplied dictionary: \<^verbatim>\<open>key in obj\<close> is \<open>obj key \<noteq> None\<close>.\<close>

type_synonym jobj = "string \<rightharpoonup> jvalue"

datatype exn_class = ClsKeyError | ClsValueError | ClsTypeError | ClsOverflowError
  | ClsAttributeError | ClsIndexError | ClsOSError

text \<open>Every exception the modelled code can raise, with the data of its message.\<close>

datatype exn =
    KeyError string               \<comment> \<open>\<^verbatim>\<open>obj.pop(key)\<close> on a missing key\<close>
  | InvalidLiteral string         \<comment> \<open>ValueError: invalid literal for int() with base 10\<close>
  | DigitLimit                    \<comment> \<open>ValueError: exceeds the limit (4300 digits)\<close>
  | NotAValid jvalue string       \<comment> \<open>ValueError: \<^verbatim>\<open>%r is not a valid %s\<close> (value, class name)\<close>
  | IntArgument jvalue            \<comment> \<open>TypeError: int() argument must be a string ... not 'NoneType'\<close>
  | DaysOverflow                  \<comment> \<open>OverflowError: days must have magnitude <= 999999999\<close>
  | DateOverflow                  \<comment> \<open>OverflowError: date value out of range\<close>
  | TimestampError exn_class      \<comment> \<open>raised by the timestamp conversion of the platform\<close>
  | UnknownFields "string set"    \<comment> \<open>ValueError: Unknown field(s) in list\<close>
  | NoStrftime                    \<comment> \<open>AttributeError: object has no attribute 'strftime'\<close>
  | NoAttribute string            \<comment> \<open>AttributeError: object has no attribute of that name\<close>
  | NotComparable                 \<comment> \<open>TypeError: '<' not supported between instances\<close>
  | NotIterable                   \<comment> \<open>TypeError: 'PhoneCall' object is not iterable\<close>
  | BadArgument jvalue            \<comment> \<open>TypeError: a constructor refuses the argument\<close>
  | IndexError                    \<comment> \<open>IndexError: list index out of range\<close>

fun class_of :: "exn \<Rightarrow> exn_class" where
  "class_of (KeyError k) = ClsKeyError"
| "class_of (InvalidLiteral s) = ClsValueError"
| "class_of DigitLimit = ClsValueError"
| "class_of (NotAValid v c) = ClsValueError"
| "class_of (IntArgument v) = ClsTypeError"
| "class_of DaysOverflow = ClsOverflowError"
| "class_of DateOverflow = ClsOverflowError"
| "class_of (TimestampError c) = c"
| "class_of (UnknownFields ns) = ClsValueError"
| "class_of NoStrftime = ClsAttributeError"
| "class_of (NoAttribute k) = ClsAttributeError"
| "class_of NotComparable = ClsTypeError"
| "class_of NotIterable = ClsTypeError"
| "class_of (BadArgument v) = ClsTypeError"
| "class_of IndexError = ClsIndexError"

text \<open>\<^verbatim>\<open>str(value)\<close> of a raw value, as the f-string of the error message formats it.\<close>

fun str_jvalue :: "jvalue \<Rightarrow> string" where
  "str_jvalue JNull = ''None''"
| "str_jvalue (JBool b) = (if b then ''True'' else ''False'')"
| "str_jvalue (JInt n) = str_int n"
| "str_jvalue (JStr s) = s"

subsection \<open>\<^verbatim>\<open>int(value)\<close>\<close>

text \<open>
  \<^verbatim>\<open>int(s)\<close> for a string.  Surrounding whitespace is stripped and one sign is allowed.
  Then the run of digits and underscores is scanned: an underscore is legal only between
  two digits.  A run of more than 4300 digits is refused (the interpreter's default
  limit); this test comes after the scan and before the test that nothing follows the
  run.
\<close>

definition is_space :: "char \<Rightarrow> bool" where
  "is_space c = (c \<in> set [CHR 0x09, CHR 0x0A, CHR 0x0B, CHR 0x0C, CHR 0x0D, CHR 0x20])"

definition strip :: "string \<Rightarrow> string" where
  "strip s = rev (dropWhile is_space (rev (dropWhile is_space s)))"

text \<open>Underscores are legal only between two digits; \<open>prev\<close> tells whether the previous
  character was a digit.\<close>

fun digits_ok :: "bool \<Rightarrow> string \<Rightarrow> bool" where
  "digits_ok prev [] = prev"
| "digits_ok prev (c # cs) =
     (if is_digit c then digits_ok True cs
      else if c = CHR ''_'' \<and> prev then digits_ok False cs
      else False)"

fun digits_value :: "nat \<Rightarrow> string \<Rightarrow> nat" where
  "digits_value acc [] = acc"
| "digits_value acc (c # cs) = digits_value (acc * 10 + digit_val c) cs"

definition is_digit_or_underscore :: "char \<Rightarrow> bool" where
  "is_digit_or_underscore c = (is_digit c \<or> c = CHR ''_'')"

definition int_of_str :: "string \<Rightarrow> exn + int" where
  "int_of_str s =
     (let t = strip s;
          neg = (t \<noteq> [] \<and> hd t = CHR ''-'');
          body = (if t \<noteq> [] \<and> (hd t = CHR ''-'' \<or> hd t = CHR ''+'') then tl t else t);
          scanned = takeWhile is_digit_or_underscore body;
          rest = dropWhile is_digit_or_underscore body;
          ds = filter is_digit scanned
      in if \<not> digits_ok False scanned then Inl (InvalidLiteral s)
         else if length ds > 4300 then Inl DigitLimit
         else if rest \<noteq> [] then Inl (InvalidLiteral s)
         else Inr (if neg then - int (digits_value 0 ds) else int (digits_value 0 ds)))"

fun py_int :: "jvalue \<Rightarrow> exn + int" where
  "py_int JNull = Inl (IntArgument JNull)"
| "py_int (JBool b) = Inr (if b then 1 else 0)"
| "py_int (JInt n) = Inr n"
| "py_int (JStr s) = int_of_str s"

section \<open>\<^verbatim>\<open>timedelta\<close> and \<^verbatim>\<open>datetime\<close>\<close>

text \<open>A \<^verbatim>\<open>timedelta\<close> is stored normalised: \<open>0 \<le> seconds < 86400\<close> and
  \<open>0 \<le> microseconds < 1000000\<close>; only \<open>days\<close> carries the sign.\<close>

record timedelta =
  days :: int
  seconds :: int
  microseconds :: int

text \<open>\<^verbatim>\<open>timedelta(seconds=n)\<close>.\<close>

definition timedelta_seconds :: "int \<Rightarrow> exn + timedelta" where
  "timedelta_seconds n =
     (let d = n div 86400; s = n mod 86400
      in if \<bar>d\<bar> > 999999999 then Inl DaysOverflow
         else Inr \<lparr>days = d, seconds = s, microseconds = 0\<rparr>)"

text \<open>\<^verbatim>\<open>timedelta.__str__\<close>.\<close>

definition str_timedelta :: "timedelta \<Rightarrow> string" where
  "str_timedelta td =
     (let ss = seconds td mod 60; mm0 = seconds td div 60;
          mm = mm0 mod 60; hh = mm0 div 60;
          s = str_int hh @ '':'' @ fmt_0d 2 mm @ '':'' @ fmt_0d 2 ss;
          s1 = (if days td \<noteq> 0
                then str_int (days td) @ '' day'' @ (if \<bar>days td\<bar> \<noteq> 1 then ''s'' else [])
                     @ '', '' @ s
                else s)
      in if microseconds td \<noteq> 0 then s1 @ ''.'' @ fmt_0d 6 (microseconds td) else s1)"

text \<open>
  An aware \<^verbatim>\<open>datetime\<close>: the wall-clock fields and the UTC offset (in seconds) of the
  fixed-offset \<^verbatim>\<open>tzinfo\<close> attached to it.  The class keeps \<open>1 \<le> year \<le> 9999\<close>,
  \<open>1 \<le> month \<le> 12\<close>, \<open>1 \<le> day \<le> days_in_month\<close>, \<open>hour < 24\<close>, \<open>minute < 60\<close>,
  \<open>second < 60\<close>, \<open>microsecond < 1000000\<close>.
\<close>

record datetime =
  year :: nat
  month :: nat
  day :: nat
  hour :: nat
  minute :: nat
  second :: nat
  microsecond :: nat
  utcoffset :: int

definition is_leap :: "nat \<Rightarrow> bool" where
  "is_leap y = (y mod 4 = 0 \<and> (y mod 100 \<noteq> 0 \<or> y mod 400 = 0))"

definition days_in_month :: "nat \<Rightarrow> nat \<Rightarrow> nat" where
  "days_in_month y m =
     (if m = 2 \<and> is_leap y then 29
      else [0, 31, 28, 31, 30, 31, 30, 31, 31, 30, 31, 30, 31] ! m)"

definition days_before_year :: "nat \<Rightarrow> nat" where
  "days_before_year y = (y - 1) * 365 + (y - 1) div 4 - (y - 1) div 100 + (y - 1) div 400"

definition days_before_month :: "nat \<Rightarrow> nat \<Rightarrow> nat" where
  "days_before_month y m =
     [0, 0, 31, 59, 90, 120, 151, 181, 212, 243, 273, 304, 334] ! m
       + (if m > 2 \<and> is_leap y then 1 else 0)"

definition ymd2ord :: "nat \<Rightarrow> nat \<Rightarrow> nat \<Rightarrow> nat" where
  "ymd2ord y m d = days_before_year y + days_before_month y m + d"

definition wf_datetime :: "datetime \<Rightarrow> bool" where
  "wf_datetime d =
     (1 \<le> year d \<and> year d \<le> 9999 \<and> 1 \<le> month d \<and> month d \<le> 12 \<and>
      1 \<le> day d \<and> day d \<le> days_in_month (year d) (month d) \<and>
      hour d < 24 \<and> minute d < 60 \<and> second d < 60 \<and> microsecond d < 1000000)"

text \<open>The instant of an aware datetime, in microseconds since 0001-01-01 00:00 UTC (shifted
  by one day: ordinals start at 1).  Aware datetimes are ordered by it.\<close>

definition dt_instant :: "datetime \<Rightarrow> int" where
  "dt_instant d =
     ((int (ymd2ord (year d) (month d) (day d)) * 86400
        + int (hour d) * 3600 + int (minute d) * 60 + int (second d)) - utcoffset d) * 1000000
       + int (microsecond d)"

definition dt_lt :: "datetime \<Rightarrow> datetime \<Rightarrow> bool" where
  "dt_lt a b = (dt_instant a < dt_instant b)"

definition dt_ge :: "datetime \<Rightarrow> datetime \<Rightarrow> bool" where
  "dt_ge a b = (dt_instant a \<ge> dt_instant b)"

text \<open>\<^verbatim>\<open>d.strftime('%d.%m.%Y')\<close> and \<^verbatim>\<open>d.strftime('%H:%M:%S')\<close>.  The conversion \<^verbatim>\<open>%Y\<close>
  writes the year in decimal without padding (the year 999 is written \<^verbatim>\<open>999\<close>); the other
  conversions write two digits.\<close>

definition strftime_dmY :: "datetime \<Rightarrow> string" where
  "strftime_dmY d = fmt_0d 2 (int (day d)) @ ''.'' @ fmt_0d 2 (int (month d)) @ ''.''
                    @ str_nat (year d)"

definition strftime_HMS :: "datetime \<Rightarrow> string" where
  "strftime_HMS d = fmt_0d 2 (int (hour d)) @ '':'' @ fmt_0d 2 (int (minute d)) @ '':''
                    @ fmt_0d 2 (int (second d))"

text \<open>\<^verbatim>\<open>d.strftime('%d.%m.%Y %H:%M:%S')\<close>.\<close>

definition strftime_full :: "datetime \<Rightarrow> string" where
  "strftime_full d = strftime_dmY d @ '' '' @ strftime_HMS d"

text \<open>The argument of \<^verbatim>\<open>start_date\<close>/\<^verbatim>\<open>stop_date\<close>: a \<^verbatim>\<open>date\<close> or a \<^verbatim>\<open>datetime\<close>
  (a subclass of \<^verbatim>\<open>date\<close>).\<close>

datatype day_arg = ADate nat nat nat | ADatetime datetime

text \<open>\<^verbatim>\<open>datetime.combine(d, time(), tzinfo=tz)\<close>: midnight of the day of \<open>d\<close>, with the
  zone object \<open>tz\<close> attached as it is; \<open>off\<close> is the UTC offset that \<open>tz\<close> reports.\<close>

fun combine :: "int \<Rightarrow> day_arg \<Rightarrow> datetime" where
  "combine off (ADate y m d) =
     \<lparr>year = y, month = m, day = d, hour = 0, minute = 0, second = 0, microsecond = 0,
      utcoffset = off\<rparr>"
| "combine off (ADatetime dt) =
     \<lparr>year = year dt, month = month dt, day = day dt, hour = 0, minute = 0, second = 0,
      microsecond = 0, utcoffset = off\<rparr>"

text \<open>\<^verbatim>\<open>dt + timedelta(days=1)\<close>: the day is incremented and the date normalised
  (one step into the next month or year); beyond year 9999 the addition overflows.\<close>

definition add_one_day :: "datetime \<Rightarrow> exn + datetime" where
  "add_one_day d =
     (if day d + 1 \<le> days_in_month (year d) (month d) then Inr (d\<lparr>day := day d + 1\<rparr>)
      else if month d + 1 \<le> 12 then Inr (d\<lparr>month := month d + 1, day := 1\<rparr>)
      else if year d + 1 \<le> 9999 then Inr (d\<lparr>year := year d + 1, month := 1, day := 1\<rparr>)
      else Inl DateOverflow)"

section \<open>Enumerations and flag sets\<close>

datatype CallType = INCOMING | OUTGOING | MISSED | VOICEMAIL | REJECTED | BLOCKED
  | ANSWERED_EXTERNALLY

fun CallType_value :: "CallType \<Rightarrow> int" where
  "CallType_value INCOMING = 1"
| "CallType_value OUTGOING = 2"
| "CallType_value MISSED = 3"
| "CallType_value VOICEMAIL = 4"
| "CallType_value REJECTED = 5"
| "CallType_value BLOCKED = 6"
| "CallType_value ANSWERED_EXTERNALLY = 7"

fun CallType_name :: "CallType \<Rightarrow> string" where
  "CallType_name INCOMING = ''INCOMING''"
| "CallType_name OUTGOING = ''OUTGOING''"
| "CallType_name MISSED = ''MISSED''"
| "CallType_name VOICEMAIL = ''VOICEMAIL''"
| "CallType_name REJECTED = ''REJECTED''"
| "CallType_name BLOCKED = ''BLOCKED''"
| "CallType_name ANSWERED_EXTERNALLY = ''ANSWERED_EXTERNALLY''"

definition CallType_members :: "CallType list" where
  "CallType_members = [INCOMING, OUTGOING, MISSED, VOICEMAIL, REJECTED, BLOCKED,
                       ANSWERED_EXTERNALLY]"

text \<open>The member \<^verbatim>\<open>_ = 0\<close> of \<^verbatim>\<open>NumberType\<close> is written \<open>NT_NONE\<close>; its name is \<^verbatim>\<open>_\<close>.\<close>

datatype NumberType = NT_NONE | HOME | MOBILE | WORK | FAX_WORK | FAX_HOME | PAGER | OTHER
  | CALLBACK | CAR | COMPANY_MAIN | ISDN | MAIN | OTHER_FAX | RADIO | TELEX | TTY_TDD
  | WORK_MOBILE | WORK_PAGER | ASSISTANT | MMS

fun NumberType_value :: "NumberType \<Rightarrow> int" where
  "NumberType_value NT_NONE = 0"
| "NumberType_value HOME = 1"
| "NumberType_value MOBILE = 2"
| "NumberType_value WORK = 3"
| "NumberType_value FAX_WORK = 4"
| "NumberType_value FAX_HOME = 5"
| "NumberType_value PAGER = 6"
| "NumberType_value OTHER = 7"
| "NumberType_value CALLBACK = 8"
| "NumberType_value CAR = 9"
| "NumberType_value COMPANY_MAIN = 10"
| "NumberType_value ISDN = 11"
| "NumberType_value MAIN = 12"
| "NumberType_value OTHER_FAX = 13"
| "NumberType_value RADIO = 14"
| "NumberType_value TELEX = 15"
| "NumberType_value TTY_TDD = 16"
| "NumberType_value WORK_MOBILE = 17"
| "NumberType_value WORK_PAGER = 18"
| "NumberType_value ASSISTANT = 19"
| "NumberType_value MMS = 20"

fun NumberType_name :: "NumberType \<Rightarrow> string" where
  "NumberType_name NT_NONE = ''_''"
| "NumberType_name HOME = ''HOME''"
| "NumberType_name MOBILE = ''MOBILE''"
| "NumberType_name WORK = ''WORK''"
| "NumberType_name FAX_WORK = ''FAX_WORK''"
| "NumberType_name FAX_HOME = ''FAX_HOME''"
| "NumberType_name PAGER = ''PAGER''"
| "NumberType_name OTHER = ''OTHER''"
| "NumberType_name CALLBACK = ''CALLBACK''"
| "NumberType_name CAR = ''CAR''"
| "NumberType_name COMPANY_MAIN = ''COMPANY_MAIN''"
| "NumberType_name ISDN = ''ISDN''"
| "NumberType_name MAIN = ''MAIN''"
| "NumberType_name OTHER_FAX = ''OTHER_FAX''"
| "NumberType_name RADIO = ''RADIO''"
| "NumberType_name TELEX = ''TELEX''"
| "NumberType_name TTY_TDD = ''TTY_TDD''"
| "NumberType_name WORK_MOBILE = ''WORK_MOBILE''"
| "NumberType_name WORK_PAGER = ''WORK_PAGER''"
| "NumberType_name ASSISTANT = ''ASSISTANT''"
| "NumberType_name MMS = ''MMS''"

definition NumberType_members :: "NumberType list" where
  "NumberType_members = [NT_NONE, HOME, MOBILE, WORK, FAX_WORK, FAX_HOME, PAGER, OTHER,
     CALLBACK, CAR, COMPANY_MAIN, ISDN, MAIN, OTHER_FAX, RADIO, TELEX, TTY_TDD, WORK_MOBILE,
     WORK_PAGER, ASSISTANT, MMS]"

datatype BlockedReason = NOT_BLOCKED | CALL_SCREENING_SERVICE | DIRECT_TO_VOICEMAIL
  | BLOCKED_NUMBER | UNKNOWN_NUMBER | RESTRICTED_NUMBER | PAY_PHONE | NOT_IN_CONTACTS

fun BlockedReason_value :: "BlockedReason \<Rightarrow> int" where
  "BlockedReason_value NOT_BLOCKED = 0"
| "BlockedReason_value CALL_SCREENING_SERVICE = 1"
| "BlockedReason_value DIRECT_TO_VOICEMAIL = 2"
| "BlockedReason_value BLOCKED_NUMBER = 3"
| "BlockedReason_value UNKNOWN_NUMBER = 4"
| "BlockedReason_value RESTRICTED_NUMBER = 5"
| "BlockedReason_value PAY_PHONE = 6"
| "BlockedReason_value NOT_IN_CONTACTS = 7"

fun BlockedReason_name :: "BlockedReason \<Rightarrow> string" where
  "BlockedReason_name NOT_BLOCKED = ''NOT_BLOCKED''"
| "BlockedReason_name CALL_SCREENING_SERVICE = ''CALL_SCREENING_SERVICE''"
| "BlockedReason_name DIRECT_TO_VOICEMAIL = ''DIRECT_TO_VOICEMAIL''"
| "BlockedReason_name BLOCKED_NUMBER = ''BLOCKED_NUMBER''"
| "BlockedReason_name UNKNOWN_NUMBER = ''UNKNOWN_NUMBER''"
| "BlockedReason_name RESTRICTED_NUMBER = ''RESTRICTED_NUMBER''"
| "BlockedReason_name PAY_PHONE = ''PAY_PHONE''"
| "BlockedReason_name NOT_IN_CONTACTS = ''NOT_IN_CONTACTS''"

definition BlockedReason_members :: "BlockedReason list" where
  "BlockedReason_members = [NOT_BLOCKED, CALL_SCREENING_SERVICE, DIRECT_TO_VOICEMAIL,
     BLOCKED_NUMBER, UNKNOWN_NUMBER, RESTRICTED_NUMBER, PAY_PHONE, NOT_IN_CONTACTS]"

datatype NumberPresentation = ALLOWED | RESTRICTED | UNKNOWN | PAYPHONE | UNAVAILABLE

fun NumberPresentation_value :: "NumberPresentation \<Rightarrow> int" where
  "NumberPresentation_value ALLOWED = 1"
| "NumberPresentation_value RESTRICTED = 2"
| "NumberPresentation_value UNKNOWN = 3"
| "NumberPresentation_value PAYPHONE = 4"
| "NumberPresentation_value UNAVAILABLE = 5"

fun NumberPresentation_name :: "NumberPresentation \<Rightarrow> string" where
  "NumberPresentation_name ALLOWED = ''ALLOWED''"
| "NumberPresentation_name RESTRICTED = ''RESTRICTED''"
| "NumberPresentation_name UNKNOWN = ''UNKNOWN''"
| "NumberPresentation_name PAYPHONE = ''PAYPHONE''"
| "NumberPresentation_name UNAVAILABLE = ''UNAVAILABLE''"

definition NumberPresentation_members :: "NumberPresentation list" where
  "NumberPresentation_members = [ALLOWED, RESTRICTED, UNKNOWN, PAYPHONE, UNAVAILABLE]"

text \<open>\<^verbatim>\<open>cls(n)\<close> for an \<^verbatim>\<open>IntEnum\<close>: the member whose value is \<open>n\<close>, if there is one.\<close>

definition by_value :: "('a \<Rightarrow> int) \<Rightarrow> 'a list \<Rightarrow> int \<Rightarrow> 'a option" where
  "by_value val ms n = find (\<lambda>m. val m = n) ms"

subsection \<open>Flag sets\<close>

text \<open>
  An instance of an \<^verbatim>\<open>IntFlag\<close> class is an integer: a named member, or a pseudo-member
  made for any other combination of bits.  A flag class is described by its canonical
  (single-bit) members in definition order and by the name of its zero member, if the
  class declares one.
\<close>

datatype MissedReasonFlag = AUTO_MISSED_EMERGENCY_CALL | AUTO_MISSED_MAXIMUM_RINGING
  | AUTO_MISSED_MAXIMUM_DIALING | USER_MISSED_NO_ANSWER | USER_MISSED_SHORT_RING
  | USER_MISSED_DND_MODE | USER_MISSED_LOW_RING_VOLUME | USER_MISSED_NO_VIBRATE
  | USER_MISSED_CALL_SCREENING_SERVICE_SILENCED | USER_MISSED_CALL_FILTERS_TIMEOUT

fun MissedReason_bit :: "MissedReasonFlag \<Rightarrow> int" where
  "MissedReason_bit AUTO_MISSED_EMERGENCY_CALL = 1"
| "MissedReason_bit AUTO_MISSED_MAXIMUM_RINGING = 2"
| "MissedReason_bit AUTO_MISSED_MAXIMUM_DIALING = 4"
| "MissedReason_bit USER_MISSED_NO_ANSWER = 0x10000"
| "MissedReason_bit USER_MISSED_SHORT_RING = 0x20000"
| "MissedReason_bit USER_MISSED_DND_MODE = 0x40000"
| "MissedReason_bit USER_MISSED_LOW_RING_VOLUME = 0x80000"
| "MissedReason_bit USER_MISSED_NO_VIBRATE = 0x100000"
| "MissedReason_bit USER_MISSED_CALL_SCREENING_SERVICE_SILENCED = 0x200000"
| "MissedReason_bit USER_MISSED_CALL_FILTERS_TIMEOUT = 0x400000"

fun MissedReason_name :: "MissedReasonFlag \<Rightarrow> string" where
  "MissedReason_name AUTO_MISSED_EMERGENCY_CALL = ''AUTO_MISSED_EMERGENCY_CALL''"
| "MissedReason_name AUTO_MISSED_MAXIMUM_RINGING = ''AUTO_MISSED_MAXIMUM_RINGING''"
| "MissedReason_name AUTO_MISSED_MAXIMUM_DIALING = ''AUTO_MISSED_MAXIMUM_DIALING''"
| "MissedReason_name USER_MISSED_NO_ANSWER = ''USER_MISSED_NO_ANSWER''"
| "MissedReason_name USER_MISSED_SHORT_RING = ''USER_MISSED_SHORT_RING''"
| "MissedReason_name USER_MISSED_DND_MODE = ''USER_MISSED_DND_MODE''"
| "MissedReason_name USER_MISSED_LOW_RING_VOLUME = ''USER_MISSED_LOW_RING_VOLUME''"
| "MissedReason_name USER_MISSED_NO_VIBRATE = ''USER_MISSED_NO_VIBRATE''"
| "MissedReason_name USER_MISSED_CALL_SCREENING_SERVICE_SILENCED =
     ''USER_MISSED_CALL_SCREENING_SERVICE_SILENCED''"
| "MissedReason_name USER_MISSED_CALL_FILTERS_TIMEOUT = ''USER_MISSED_CALL_FILTERS_TIMEOUT''"

definition MissedReason_members :: "MissedReasonFlag list" where
  "MissedReason_members = [AUTO_MISSED_EMERGENCY_CALL, AUTO_MISSED_MAXIMUM_RINGING,
     AUTO_MISSED_MAXIMUM_DIALING, USER_MISSED_NO_ANSWER, USER_MISSED_SHORT_RING,
     USER_MISSED_DND_MODE, USER_MISSED_LOW_RING_VOLUME, USER_MISSED_NO_VIBRATE,
     USER_MISSED_CALL_SCREENING_SERVICE_SILENCED, USER_MISSED_CALL_FILTERS_TIMEOUT]"

datatype CallFeature = ASSISTED_DIALING_USED | HD_CALL | PULLED_EXTERNALLY | RTT | VIDEO
  | VOLTE | WIFI

fun CallFeatures_bit :: "CallFeature \<Rightarrow> int" where
  "CallFeatures_bit ASSISTED_DIALING_USED = 16"
| "CallFeatures_bit HD_CALL = 4"
| "CallFeatures_bit PULLED_EXTERNALLY = 2"
| "CallFeatures_bit RTT = 32"
| "CallFeatures_bit VIDEO = 1"
| "CallFeatures_bit VOLTE = 64"
| "CallFeatures_bit WIFI = 8"

fun CallFeatures_name :: "CallFeature \<Rightarrow> string" where
  "CallFeatures_name ASSISTED_DIALING_USED = ''ASSISTED_DIALING_USED''"
| "CallFeatures_name HD_CALL = ''HD_CALL''"
| "CallFeatures_name PULLED_EXTERNALLY = ''PULLED_EXTERNALLY''"
| "CallFeatures_name RTT = ''RTT''"
| "CallFeatures_name VIDEO = ''VIDEO''"
| "CallFeatures_name VOLTE = ''VOLTE''"
| "CallFeatures_name WIFI = ''WIFI''"

text \<open>The members of \<^verbatim>\<open>CallFeatures\<close> are not declared in increasing order of value, so
  the class iterates the members of a value in definition order.\<close>

definition CallFeatures_members :: "CallFeature list" where
  "CallFeatures_members = [ASSISTED_DIALING_USED, HD_CALL, PULLED_EXTERNALLY, RTT, VIDEO,
                           VOLTE, WIFI]"

text \<open>The canonical members present in a value, and the union of all canonical bits.\<close>

definition flags_in :: "('f \<Rightarrow> int) \<Rightarrow> 'f list \<Rightarrow> int \<Rightarrow> 'f list" where
  "flags_in bit_of ms v = filter (\<lambda>m. v AND bit_of m \<noteq> 0) ms"

definition flag_mask :: "('f \<Rightarrow> int) \<Rightarrow> 'f list \<Rightarrow> int" where
  "flag_mask bit_of ms = fold (\<lambda>m acc. acc OR bit_of m) ms 0"

text \<open>\<^verbatim>\<open>n.bit_length()\<close> of a natural number.\<close>

fun bit_length :: "nat \<Rightarrow> nat" where
  "bit_length n = (if n = 0 then 0 else Suc (bit_length (n div 2)))"

declare bit_length.simps [simp del]

text \<open>
  \<^verbatim>\<open>cls(n)\<close> for an \<^verbatim>\<open>IntFlag\<close> class (boundary \<^verbatim>\<open>KEEP\<close>, inherited from \<^verbatim>\<open>IntFlag\<close>, the
  last base): bits that belong to no member are kept; a negative \<open>n\<close> is read as the
  complement within the class's bit range.
\<close>

definition flag_call :: "int \<Rightarrow> int \<Rightarrow> int" where
  "flag_call fmask n =
     (let all_bits = 2 ^ bit_length (nat fmask) - 1;
          n1 = (if (\<not> (NOT all_bits \<le> n \<and> n \<le> all_bits) \<or> n AND (all_bits XOR fmask) \<noteq> 0)
                   \<and> n < 0
                then max (all_bits + 1) (2 ^ bit_length (nat \<bar>n\<bar>)) + n
                else n)
      in if n1 < 0 then all_bits + 1 + n1 else n1)"

text \<open>
  The \<^verbatim>\<open>name\<close> of a flag value: the declared name of zero; otherwise the names of the
  canonical members present, joined by \<^verbatim>\<open>|\<close>, followed by the number that holds the
  unknown bits, if any; \<^verbatim>\<open>None\<close> when no member is present.
\<close>

definition flag_name ::
  "('f \<Rightarrow> int) \<Rightarrow> ('f \<Rightarrow> string) \<Rightarrow> 'f list \<Rightarrow> string option \<Rightarrow> int \<Rightarrow> string option" where
  "flag_name bit_of name_of ms zero v =
     (if v = 0 then zero
      else let present = flags_in bit_of ms v;
               unknown = v AND NOT (flag_mask bit_of ms)
           in if present = [] then None
              else Some (py_join ''|'' (map name_of present)
                         @ (if unknown \<noteq> 0 then ''|'' @ str_int unknown else [])))"

section \<open>Pretty labels\<close>

text \<open>\<^verbatim>\<open>PrettyEnum.__str__\<close>, from the member's name and value.\<close>

definition PrettyEnum_str :: "string \<Rightarrow> int \<Rightarrow> string" where
  "PrettyEnum_str nm v =
     (if nm = [] then str_int v else cap_words (py_replace ''_'' '' '' nm))"

text \<open>\<^verbatim>\<open>PrettyFlag.__str__\<close>, from the value's name (if any) and the value.\<close>

definition PrettyFlag_str :: "string option \<Rightarrow> int \<Rightarrow> string" where
  "PrettyFlag_str nm v =
     (if v = 0 then []
      else if nm = None \<or> nm = Some [] then str_int v
      else cap_words (py_replace ''_'' '' '' (py_replace ''|'' '', '' (the nm))))"

definition CallType_str :: "CallType \<Rightarrow> string" where
  "CallType_str m = PrettyEnum_str (CallType_name m) (CallType_value m)"

definition BlockedReason_str :: "BlockedReason \<Rightarrow> string" where
  "BlockedReason_str m = PrettyEnum_str (BlockedReason_name m) (BlockedReason_value m)"

definition NumberPresentation_str :: "NumberPresentation \<Rightarrow> string" where
  "NumberPresentation_str m =
     PrettyEnum_str (NumberPresentation_name m) (NumberPresentation_value m)"

text \<open>\<^verbatim>\<open>NumberType.__str__\<close>.\<close>

definition NumberType_str :: "NumberType \<Rightarrow> string" where
  "NumberType_str m =
     (if NumberType_value m = 0 then []
      else PrettyEnum_str (NumberType_name m) (NumberType_value m))"

definition MissedReason_str :: "int \<Rightarrow> string" where
  "MissedReason_str v =
     PrettyFlag_str
       (flag_name MissedReason_bit MissedReason_name MissedReason_members (Some ''NOT_MISSED'') v) v"

text \<open>\<^verbatim>\<open>CallFeatures.__str__\<close>.\<close>

definition CallFeatures_str :: "int \<Rightarrow> string" where
  "CallFeatures_str v =
     py_replace ''Wifi'' ''WiFi''
       (py_replace ''Volte'' ''VoLTE''
         (py_replace ''Rtt'' ''RTT''
           (PrettyFlag_str
              (flag_name CallFeatures_bit CallFeatures_name CallFeatures_members None v) v)))"

section \<open>The record \<^verbatim>\<open>PhoneCall\<close> and its decoder\<close>

text \<open>
  The value of an attribute of a \<^verbatim>\<open>PhoneCall\<close>.  The dataclass does not enforce the
  declared types: an attribute holds whatever the decoder stored (an \<^verbatim>\<open>int\<close> field keeps
  a JSON boolean, for instance), so attribute values are dynamically typed.
\<close>

datatype pyval = VNone | VBool bool | VInt int | VStr string
  | VDatetime datetime | VTimedelta timedelta
  | VCallType CallType | VNumberType NumberType | VBlockedReason BlockedReason
  | VNumberPresentation NumberPresentation
  | VMissedReason int | VCallFeatures int

text \<open>The declared type of a dataclass field (\<^verbatim>\<open>field.type\<close>).\<close>

datatype ftype = TDatetime | TTimedelta | TBool | TInt | TStr
  | TCallType | TNumberType | TBlockedReason | TNumberPresentation
  | TMissedReason | TCallFeatures

text \<open>A dataclass field; \<open>f_default = None\<close> is \<^verbatim>\<open>dataclasses.MISSING\<close>.\<close>

record dfield =
  f_name :: string
  f_type :: ftype
  f_default :: "pyval option"

definition fld :: "string \<Rightarrow> ftype \<Rightarrow> dfield" where
  "fld n t = \<lparr>f_name = n, f_type = t, f_default = None\<rparr>"

definition fld_d :: "string \<Rightarrow> ftype \<Rightarrow> pyval \<Rightarrow> dfield" where
  "fld_d n t d = \<lparr>f_name = n, f_type = t, f_default = Some d\<rparr>"

text \<open>\<^verbatim>\<open>dataclasses.fields(PhoneCall)\<close>, in declaration order.\<close>

definition PhoneCall_fields :: "dfield list" where
  "PhoneCall_fields =
    [fld ''date'' TDatetime,
     fld ''phone_account_hidden'' TBool,
     fld ''photo_id'' TInt,
     fld ''subscription_component_name'' TStr,
     fld ''type'' TCallType,
     fld ''presentation'' TNumberPresentation,
     fld ''duration'' TTimedelta,
     fld ''subscription_id'' TInt,
     fld ''is_read'' TBool,
     fld ''number'' TStr,
     fld ''features'' TCallFeatures,
     fld ''via_number'' TStr,
     fld ''last_modified'' TDatetime,
     fld ''new'' TBool,
     fld ''missed_reason'' TMissedReason,
     fld ''phone_account_address'' TStr,
     fld ''add_for_all_users'' TBool,
     fld ''block_reason'' TBlockedReason,
     fld ''priority'' TInt,
     fld ''countryiso'' TStr,
     fld ''is_call_log_phone_account_migration_pending'' TBool,
     fld ''post_dial_digits'' TStr,
     fld ''transcription_state'' TBool,
     fld ''_id'' TInt,
     fld_d ''subject'' TStr VNone,
     fld_d ''matched_number'' TStr VNone,
     fld_d ''formatted_nummer'' TStr VNone,
     fld_d ''normalized_number'' TStr VNone,
     fld_d ''lookup_uri'' TStr VNone,
     fld_d ''name'' TStr (VStr []),
     fld_d ''display_name'' TStr (VStr []),
     fld_d ''numbertype'' TNumberType VNone,
     fld_d ''data_usage'' TInt VNone,
     fld_d ''geocoded_location'' TStr (VStr [])]"

text \<open>An instance: its attributes by name.  \<^verbatim>\<open>call\<close>, the keyword dictionary that
  \<^verbatim>\<open>from_json\<close> builds, has the same type.\<close>

type_synonym PhoneCall = "string \<rightharpoonup> pyval"

text \<open>\<^verbatim>\<open>cls(**call)\<close>: an attribute that is not passed takes the field's default.  (A
  missing argument without default cannot occur: \<^verbatim>\<open>obj.pop\<close> has raised before.)\<close>

definition PhoneCall_init :: "PhoneCall \<Rightarrow> PhoneCall" where
  "PhoneCall_init call =
     (\<lambda>k. case call k of
            Some v \<Rightarrow> Some v
          | None \<Rightarrow> (case find (\<lambda>f. f_name f = k) PhoneCall_fields of
                       Some f \<Rightarrow> f_default f
                     | None \<Rightarrow> None))"

subsection \<open>Decoding one value\<close>

definition is_enum :: "ftype \<Rightarrow> bool" where
  "is_enum t = (t \<in> set [TCallType, TNumberType, TBlockedReason, TNumberPresentation,
                          TMissedReason, TCallFeatures])"

fun is_str :: "jvalue \<Rightarrow> bool" where
  "is_str (JStr s) = True"
| "is_str v = False"

text \<open>\<^verbatim>\<open>isinstance(value, field.type)\<close> for a raw value; \<^verbatim>\<open>bool\<close> is a subclass of
  \<^verbatim>\<open>int\<close>.\<close>

fun isinstance :: "jvalue \<Rightarrow> ftype \<Rightarrow> bool" where
  "isinstance (JBool b) TBool = True"
| "isinstance (JBool b) TInt = True"
| "isinstance (JInt n) TInt = True"
| "isinstance (JStr s) TStr = True"
| "isinstance v t = False"

text \<open>The raw value kept as it is.\<close>

fun of_json :: "jvalue \<Rightarrow> pyval" where
  "of_json JNull = VNone"
| "of_json (JBool b) = VBool b"
| "of_json (JInt n) = VInt n"
| "of_json (JStr s) = VStr s"

text \<open>The integer that a raw value is equal to as a dictionary key of
  \<^verbatim>\<open>_value2member_map_\<close> (\<^verbatim>\<open>True == 1\<close>), if it is a number.\<close>

fun as_number :: "jvalue \<Rightarrow> int option" where
  "as_number (JInt n) = Some n"
| "as_number (JBool b) = Some (if b then 1 else 0)"
| "as_number v = None"

definition enum_member ::
  "('a \<Rightarrow> int) \<Rightarrow> 'a list \<Rightarrow> ('a \<Rightarrow> pyval) \<Rightarrow> string \<Rightarrow> jvalue \<Rightarrow> exn + pyval" where
  "enum_member val ms wrap cls v =
     (case as_number v of
        None \<Rightarrow> Inl (NotAValid v cls)
      | Some n \<Rightarrow> (case by_value val ms n of
                     None \<Rightarrow> Inl (NotAValid v cls)
                   | Some m \<Rightarrow> Inr (wrap m)))"

definition flag_member ::
  "('f \<Rightarrow> int) \<Rightarrow> 'f list \<Rightarrow> (int \<Rightarrow> pyval) \<Rightarrow> string \<Rightarrow> jvalue \<Rightarrow> exn + pyval" where
  "flag_member bit_of ms wrap cls v =
     (case as_number v of
        None \<Rightarrow> Inl (NotAValid v cls)
      | Some n \<Rightarrow> Inr (wrap (flag_call (flag_mask bit_of ms) n)))"

text \<open>\<^verbatim>\<open>timedelta(n)\<close>: the first positional argument is \<^verbatim>\<open>days\<close>.\<close>

definition timedelta_days :: "int \<Rightarrow> exn + timedelta" where
  "timedelta_days n =
     (if \<bar>n\<bar> > 999999999 then Inl DaysOverflow
      else Inr \<lparr>days = n, seconds = 0, microseconds = 0\<rparr>)"

text \<open>\<^verbatim>\<open>field.type(value)\<close>: the class of the field called on the raw value.\<close>

fun construct :: "ftype \<Rightarrow> jvalue \<Rightarrow> exn + pyval" where
  "construct TCallType v = enum_member CallType_value CallType_members VCallType ''CallType'' v"
| "construct TNumberType v =
     enum_member NumberType_value NumberType_members VNumberType ''NumberType'' v"
| "construct TBlockedReason v =
     enum_member BlockedReason_value BlockedReason_members VBlockedReason ''BlockedReason'' v"
| "construct TNumberPresentation v =
     enum_member NumberPresentation_value NumberPresentation_members VNumberPresentation
       ''NumberPresentation'' v"
| "construct TMissedReason v =
     flag_member MissedReason_bit MissedReason_members VMissedReason ''MissedReason'' v"
| "construct TCallFeatures v =
     flag_member CallFeatures_bit CallFeatures_members VCallFeatures ''CallFeatures'' v"
| "construct TBool v =
     Inr (VBool (case v of JNull \<Rightarrow> False | JBool b \<Rightarrow> b | JInt n \<Rightarrow> n \<noteq> 0 | JStr s \<Rightarrow> s \<noteq> []))"
| "construct TInt v = (case py_int v of Inl e \<Rightarrow> Inl e | Inr n \<Rightarrow> Inr (VInt n))"
| "construct TStr v = Inr (VStr (str_jvalue v))"
| "construct TDatetime v = Inl (BadArgument v)"
| "construct TTimedelta v =
     (case as_number v of
        None \<Rightarrow> Inl (BadArgument v)
      | Some n \<Rightarrow> (case timedelta_days n of Inl e \<Rightarrow> Inl e | Inr td \<Rightarrow> Inr (VTimedelta td)))"

text \<open>
  The body of the \<^verbatim>\<open>try\<close> block of \<^verbatim>\<open>from_json\<close>, branch by branch.  \<open>to_local\<close> stands
  for \<^verbatim>\<open>datetime.utcfromtimestamp(n/1000).replace(tzinfo=pytz.UTC).astimezone(tz)\<close>, which
  depends on the zone database and on the platform's range of timestamps.
\<close>

definition decode_value :: "(int \<Rightarrow> exn + datetime) \<Rightarrow> ftype \<Rightarrow> jvalue \<Rightarrow> exn + pyval" where
  "decode_value to_local t v =
     (if t = TDatetime then
        (case py_int v of
           Inl e \<Rightarrow> Inl e
         | Inr n \<Rightarrow> (case to_local n of Inl e \<Rightarrow> Inl e | Inr d \<Rightarrow> Inr (VDatetime d)))
      else if t = TTimedelta then
        (case py_int v of
           Inl e \<Rightarrow> Inl e
         | Inr n \<Rightarrow> (case timedelta_seconds n of Inl e \<Rightarrow> Inl e | Inr td \<Rightarrow> Inr (VTimedelta td)))
      else if is_enum t \<and> is_str v then
        (case py_int v of
           Inl e \<Rightarrow> Inl e
         | Inr n \<Rightarrow> construct t (JInt n))
      else if t = TBool \<and> is_str v then Inr (VBool (v = JStr ''1''))
      else if \<not> isinstance v t then construct t v
      else Inr (of_json v))"

subsection \<open>\<^verbatim>\<open>from_json\<close>\<close>

definition failed_parsing :: "string \<Rightarrow> jvalue \<Rightarrow> string" where
  "failed_parsing key v =
     ''Failed parsing field '' @ key @ '' for value '' @ [CHR 0x22] @ str_jvalue v
       @ [CHR 0x22] @ ''.''"

text \<open>
  The inner loop over the fields of one object.  The state is the caller's dictionary
  \<open>obj\<close> (each \<^verbatim>\<open>pop\<close> removes a key from it), the keyword dictionary \<open>call\<close> and the
  lines printed so far.  \<open>pos\<close> is \<^verbatim>\<open>len(calls) + 1\<close> when a list is decoded.  Only a
  \<^verbatim>\<open>TypeError\<close> is caught (and raised again after the messages are printed); the
  \<^verbatim>\<open>KeyError\<close> of \<^verbatim>\<open>pop\<close> is raised outside the \<^verbatim>\<open>try\<close> block.
\<close>

fun decode_fields ::
  "(int \<Rightarrow> exn + datetime) \<Rightarrow> nat option \<Rightarrow> dfield list \<Rightarrow> jobj \<Rightarrow> PhoneCall \<Rightarrow> string list
     \<Rightarrow> (exn + PhoneCall) \<times> jobj \<times> string list" where
  "decode_fields to_local pos [] obj call out = (Inr call, obj, out)"
| "decode_fields to_local pos (f # fs) obj call out =
     (if f_default f \<noteq> None \<and> obj (f_name f) = None
      then decode_fields to_local pos fs obj call out
      else (case obj (f_name f) of
              None \<Rightarrow> (Inl (KeyError (f_name f)), obj, out)
            | Some v \<Rightarrow>
                (case decode_value to_local (f_type f) v of
                   Inl e \<Rightarrow>
                     (Inl e, obj(f_name f := None),
                      if class_of e = ClsTypeError
                      then out @ [failed_parsing (f_name f) v]
                             @ (case pos of None \<Rightarrow> [] | Some k \<Rightarrow> [''Call '' @ str_nat k])
                      else out)
                 | Inr x \<Rightarrow>
                     decode_fields to_local pos fs (obj(f_name f := None))
                       (call(f_name f \<mapsto> x)) out)))"

text \<open>The outer loop: \<open>calls\<close> are the records built so far; the result carries the
  final state of every input dictionary, in order.\<close>

fun decode_all ::
  "(int \<Rightarrow> exn + datetime) \<Rightarrow> bool \<Rightarrow> jobj list \<Rightarrow> PhoneCall list \<Rightarrow> string list
     \<Rightarrow> (exn + PhoneCall list) \<times> jobj list \<times> string list" where
  "decode_all to_local multiple [] calls out = (Inr calls, [], out)"
| "decode_all to_local multiple (obj # rest) calls out =
     (case decode_fields to_local (if multiple then Some (length calls + 1) else None)
             PhoneCall_fields obj Map.empty out of
        (Inl e, obj', out') \<Rightarrow> (Inl e, obj' # rest, out')
      | (Inr call, obj', out') \<Rightarrow>
          (case decode_all to_local multiple rest (calls @ [PhoneCall_init call]) out' of
             (r, objs', out'') \<Rightarrow> (r, obj' # objs', out'')))"

text \<open>The argument of \<^verbatim>\<open>from_json\<close> is one dictionary or a list of dictionaries; the
  result is one record or a list of records accordingly.\<close>

datatype json_doc = JOne jobj | JMany "jobj list"

datatype decoded = One PhoneCall | Many "PhoneCall list"

fun from_json ::
  "(int \<Rightarrow> exn + datetime) \<Rightarrow> json_doc \<Rightarrow> (exn + decoded) \<times> jobj list \<times> string list" where
  "from_json to_local (JMany objs) =
     (case decode_all to_local True objs [] [] of
        (Inl e, objs', out) \<Rightarrow> (Inl e, objs', out)
      | (Inr calls, objs', out) \<Rightarrow> (Inr (Many calls), objs', out))"
| "from_json to_local (JOne obj) =
     (case decode_all to_local False [obj] [] [] of
        (Inl e, objs', out) \<Rightarrow> (Inl e, objs', out)
      | (Inr calls, objs', out) \<Rightarrow>
          (case calls of
             [] \<Rightarrow> (Inl IndexError, objs', out)
           | c # cs \<Rightarrow> (Inr (One c), objs', out)))"

section \<open>Rendering\<close>

definition default_csv_fields :: "string list" where
  "default_csv_fields = [''date'', ''time'', ''type'', ''duration'', ''number'', ''display_name'',
     ''numbertype'', ''presentation'', ''missed_reason'', ''block_reason'', ''features'',
     ''countryiso'']"

text \<open>\<^verbatim>\<open>csv_header\<close>.\<close>

definition csv_header :: "string list option \<Rightarrow> string list" where
  "csv_header flds =
     map (\<lambda>f. cap_words (py_replace ''_'' '' '' f))
       (case flds of None \<Rightarrow> default_csv_fields | Some fs \<Rightarrow> fs)"

text \<open>Attribute access \<^verbatim>\<open>self.k\<close>, and \<^verbatim>\<open>getattr(self, k, None)\<close>.\<close>

definition attr :: "PhoneCall \<Rightarrow> string \<Rightarrow> exn + pyval" where
  "attr self k = (case self k of None \<Rightarrow> Inl (NoAttribute k) | Some v \<Rightarrow> Inr v)"

definition getattr_none :: "PhoneCall \<Rightarrow> string \<Rightarrow> pyval" where
  "getattr_none self k = (case self k of None \<Rightarrow> VNone | Some v \<Rightarrow> v)"

text \<open>Truth value of an attribute (\<^verbatim>\<open>not value\<close>).\<close>

fun truthy :: "pyval \<Rightarrow> bool" where
  "truthy VNone = False"
| "truthy (VBool b) = b"
| "truthy (VInt n) = (n \<noteq> 0)"
| "truthy (VStr s) = (s \<noteq> [])"
| "truthy (VDatetime d) = True"
| "truthy (VTimedelta td) = (days td \<noteq> 0 \<or> seconds td \<noteq> 0 \<or> microseconds td \<noteq> 0)"
| "truthy (VCallType m) = (CallType_value m \<noteq> 0)"
| "truthy (VNumberType m) = (NumberType_value m \<noteq> 0)"
| "truthy (VBlockedReason m) = (BlockedReason_value m \<noteq> 0)"
| "truthy (VNumberPresentation m) = (NumberPresentation_value m \<noteq> 0)"
| "truthy (VMissedReason v) = (v \<noteq> 0)"
| "truthy (VCallFeatures v) = (v \<noteq> 0)"

text \<open>\<^verbatim>\<open>self.date.strftime(...)\<close> for the two pseudo-columns.\<close>

definition date_strftime :: "PhoneCall \<Rightarrow> (datetime \<Rightarrow> string) \<Rightarrow> exn + pyval" where
  "date_strftime self fmt =
     (case attr self ''date'' of
        Inl e \<Rightarrow> Inl e
      | Inr (VDatetime d) \<Rightarrow> Inr (VStr (fmt d))
      | Inr v \<Rightarrow> Inl NoStrftime)"

text \<open>
  The case \<^verbatim>\<open>'formatted_numer', _\<close> stands before the cases for booleans, \<^verbatim>\<open>None\<close> and
  the default: for that column name the value is replaced by \<^verbatim>\<open>normalized_number\<close> or
  \<^verbatim>\<open>number\<close> when it is false, and is not converted to a string.  For any other column
  the later case \<open>r\<close> applies.
\<close>

definition numer_or :: "PhoneCall \<Rightarrow> string \<Rightarrow> pyval \<Rightarrow> pyval \<Rightarrow> exn + pyval" where
  "numer_or self field v r =
     (if field = ''formatted_numer''
      then (if \<not> truthy v
            then (case attr self ''normalized_number'' of
                    Inl e \<Rightarrow> Inl e
                  | Inr nn \<Rightarrow> if truthy nn then Inr nn else attr self ''number'')
            else Inr v)
      else Inr r)"

text \<open>The \<^verbatim>\<open>match field, value\<close> statement of \<^verbatim>\<open>csv_row\<close>: one cell of the row.\<close>

definition csv_cell :: "PhoneCall \<Rightarrow> string set \<Rightarrow> string \<Rightarrow> exn + pyval" where
  "csv_cell self out_fields field =
     (let v = getattr_none self field
      in if field = ''date'' then
           (if ''time'' \<in> out_fields then date_strftime self strftime_dmY
            else date_strftime self strftime_full)
         else if field = ''time'' then date_strftime self strftime_HMS
         else (case v of
                 VDatetime d \<Rightarrow> Inr (VStr (strftime_full d))
               | VTimedelta td \<Rightarrow> Inr (VStr (rjust 8 CHR ''0'' (str_timedelta td)))
               | VBool b \<Rightarrow> numer_or self field v (VStr (if b then ''Yes'' else ''No''))
               | VNone \<Rightarrow> numer_or self field v (VStr [])
               | VInt n \<Rightarrow> numer_or self field v (VStr (str_int n))
               | VStr s \<Rightarrow> numer_or self field v (VStr s)
               | VCallType m \<Rightarrow> numer_or self field v (VStr (CallType_str m))
               | VNumberType m \<Rightarrow> numer_or self field v (VStr (NumberType_str m))
               | VBlockedReason m \<Rightarrow> numer_or self field v (VStr (BlockedReason_str m))
               | VNumberPresentation m \<Rightarrow>
                   numer_or self field v (VStr (NumberPresentation_str m))
               | VMissedReason x \<Rightarrow> numer_or self field v (VStr (MissedReason_str x))
               | VCallFeatures x \<Rightarrow> numer_or self field v (VStr (CallFeatures_str x))))"

text \<open>The loop \<^verbatim>\<open>for field in fields: ... row.append(value)\<close>.\<close>

fun csv_cells :: "PhoneCall \<Rightarrow> string set \<Rightarrow> string list \<Rightarrow> exn + pyval list" where
  "csv_cells self out_fields [] = Inr []"
| "csv_cells self out_fields (f # fs) =
     (case csv_cell self out_fields f of
        Inl e \<Rightarrow> Inl e
      | Inr x \<Rightarrow> (case csv_cells self out_fields fs of
                     Inl e \<Rightarrow> Inl e
                   | Inr xs \<Rightarrow> Inr (x # xs)))"

text \<open>\<^verbatim>\<open>csv_row\<close>: the column names are validated before the first cell is rendered.\<close>

definition csv_row :: "PhoneCall \<Rightarrow> string list option \<Rightarrow> exn + pyval list" where
  "csv_row self flds =
     (let fs = (case flds of None \<Rightarrow> default_csv_fields | Some fs \<Rightarrow> fs);
          out_fields = set fs;
          call_fields = set (map f_name PhoneCall_fields);
          csv_aliases = {''time''}
      in if \<not> (out_fields - csv_aliases \<subseteq> call_fields)
         then Inl (UnknownFields (out_fields - csv_aliases - call_fields))
         else csv_cells self out_fields fs)"

subsection \<open>\<^verbatim>\<open>convert_to_csv\<close>\<close>

text \<open>\<^verbatim>\<open>call.date < start_date\<close> and \<^verbatim>\<open>call.date >= stop_date\<close>.\<close>

definition date_cmp :: "(datetime \<Rightarrow> datetime \<Rightarrow> bool) \<Rightarrow> PhoneCall \<Rightarrow> datetime \<Rightarrow> exn + bool" where
  "date_cmp cmp c s =
     (case attr c ''date'' of
        Inl e \<Rightarrow> Inl e
      | Inr (VDatetime d) \<Rightarrow> Inr (cmp d s)
      | Inr v \<Rightarrow> Inl NotComparable)"

text \<open>
  The loop over the decoded records.  \<open>rows\<close> are the rows written so far; \<^verbatim>\<open>break\<close>
  returns them, \<^verbatim>\<open>continue\<close> goes on with the next record.
\<close>

fun write_rows ::
  "datetime option \<Rightarrow> datetime option \<Rightarrow> PhoneCall list \<Rightarrow> pyval list list
     \<Rightarrow> exn option \<times> pyval list list" where
  "write_rows start stop [] rows = (None, rows)"
| "write_rows start stop (c # cs) rows =
     (case (case start of None \<Rightarrow> Inr False | Some s \<Rightarrow> date_cmp dt_lt c s) of
        Inl e \<Rightarrow> (Some e, rows)
      | Inr True \<Rightarrow> (None, rows)
      | Inr False \<Rightarrow>
          (case (case stop of None \<Rightarrow> Inr False | Some s \<Rightarrow> date_cmp dt_ge c s) of
             Inl e \<Rightarrow> (Some e, rows)
           | Inr True \<Rightarrow> write_rows start stop cs rows
           | Inr False \<Rightarrow>
               (case csv_row c None of
                  Inl e \<Rightarrow> (Some e, rows)
                | Inr r \<Rightarrow> write_rows start stop cs (rows @ [r]))))"

text \<open>
  \<^verbatim>\<open>convert_to_csv\<close> on a parsed document.  \<open>tz_off\<close> is the UTC offset reported by the
  zone object \<^verbatim>\<open>tz\<close> when it is attached with \<^verbatim>\<open>tzinfo=tz\<close>.  The result is the exception
  raised (if any), the rows handed to \<^verbatim>\<open>writer.writerow\<close> in order, and the lines
  printed.  Quoting and line ends are the business of the \<^verbatim>\<open>csv\<close> module.
\<close>

definition convert_to_csv ::
  "(int \<Rightarrow> exn + datetime) \<Rightarrow> int \<Rightarrow> json_doc \<Rightarrow> day_arg option \<Rightarrow> day_arg option
     \<Rightarrow> exn option \<times> pyval list list \<times> string list" where
  "convert_to_csv to_local tz_off doc start_date stop_date =
     (let start = map_option (combine tz_off) start_date;
          stop0 = map_option (combine tz_off) stop_date
      in case (case stop0 of
                 None \<Rightarrow> Inr None
               | Some d \<Rightarrow> (case add_one_day d of Inl e \<Rightarrow> Inl e | Inr d' \<Rightarrow> Inr (Some d'))) of
           Inl e \<Rightarrow> (Some e, [], [])
         | Inr stop \<Rightarrow>
             (case from_json to_local doc of
                (Inl e, objs', out) \<Rightarrow> (Some e, [], out)
              | (Inr calls, objs', out) \<Rightarrow>
                  (let header = map VStr (csv_header None)
                   in case calls of
                        One c \<Rightarrow> (Some NotIterable, [header], out)
                      | Many cs \<Rightarrow>
                          (case write_rows start stop cs [header] of
                             (e, rows) \<Rightarrow> (e, rows, out)))))"

section \<open>Notions used to state the properties\<close>

text \<open>The shape \<^verbatim>\<open>HH:MM:SS\<close>: eight characters, digits around two colons.\<close>

definition is_HHMMSS :: "string \<Rightarrow> bool" where
  "is_HHMMSS s =
     (length s = 8 \<and> is_digit (s ! 0) \<and> is_digit (s ! 1) \<and> s ! 2 = CHR '':''
      \<and> is_digit (s ! 3) \<and> is_digit (s ! 4) \<and> s ! 5 = CHR '':''
      \<and> is_digit (s ! 6) \<and> is_digit (s ! 7))"

text \<open>A number of seconds written as hours, minutes and seconds, two digits each.\<close>

definition hhmmss :: "int \<Rightarrow> string" where
  "hhmmss n = fmt_0d 2 (n div 3600) @ '':'' @ fmt_0d 2 (n div 60 mod 60) @ '':''
              @ fmt_0d 2 (n mod 60)"

text \<open>A number of seconds written as \<^verbatim>\<open>D day, H:MM:SS\<close> or \<^verbatim>\<open>D days, H:MM:SS\<close>: the whole
  days, the word in the singular for one day only, and the remaining hours (not padded),
  minutes and seconds.\<close>

definition days_hmmss :: "int \<Rightarrow> string" where
  "days_hmmss n =
     str_int (n div 86400) @ '' day'' @ (if n div 86400 = 1 then [] else ''s'') @ '', ''
       @ str_int (n mod 86400 div 3600) @ '':'' @ fmt_0d 2 (n mod 86400 div 60 mod 60) @ '':''
       @ fmt_0d 2 (n mod 60)"

subsection \<open>Sample data\<close>

text \<open>
  Three instants (epoch milliseconds) with their wall-clock time in Europe/Vienna
  (CET, UTC+1): a finite extract of the zone conversion, for concrete evaluations.
\<close>

definition sample_to_local :: "int \<Rightarrow> exn + datetime" where
  "sample_to_local n =
     (if n = 1709636400000 then
        Inr \<lparr>year = 2024, month = 3, day = 5, hour = 12, minute = 0, second = 0,
             microsecond = 0, utcoffset = 3600\<rparr>
      else if n = 1709506799000 then
        Inr \<lparr>year = 2024, month = 3, day = 3, hour = 23, minute = 59, second = 59,
             microsecond = 0, utcoffset = 3600\<rparr>
      else if n = 1709278215000 then
        Inr \<lparr>year = 2024, month = 3, day = 1, hour = 8, minute = 30, second = 15,
             microsecond = 0, utcoffset = 3600\<rparr>
      else Inl (TimestampError ClsOverflowError))"

text \<open>One exported call, every value a string as the device writes it, and a key that is
  not a field of the record.\<close>

definition sample_obj :: jobj where
  "sample_obj = map_of
    [(''date'', JStr ''1709636400000''),
     (''phone_account_hidden'', JStr ''0''),
     (''photo_id'', JStr ''0''),
     (''subscription_component_name'', JStr ''com.android.phone''),
     (''type'', JStr ''3''),
     (''presentation'', JStr ''1''),
     (''duration'', JStr ''3661''),
     (''subscription_id'', JStr ''1''),
     (''is_read'', JStr ''1''),
     (''number'', JStr ''+4312345''),
     (''features'', JStr ''104''),
     (''via_number'', JStr []),
     (''last_modified'', JStr ''1709636400000''),
     (''new'', JStr ''1''),
     (''missed_reason'', JStr ''196608''),
     (''phone_account_address'', JStr []),
     (''add_for_all_users'', JStr ''1''),
     (''block_reason'', JStr ''0''),
     (''priority'', JStr ''0''),
     (''countryiso'', JStr ''AT''),
     (''is_call_log_phone_account_migration_pending'', JStr ''0''),
     (''post_dial_digits'', JStr []),
     (''transcription_state'', JStr ''0''),
     (''_id'', JStr ''17''),
     (''numbertype'', JStr ''2''),
     (''sim_slot'', JStr ''0'')]"

text \<open>The record decoded from \<open>sample_obj\<close>, attribute by attribute.\<close>

definition sample_call :: PhoneCall where
  "sample_call = map_of
    [(''date'', VDatetime \<lparr>year = 2024, month = 3, day = 5, hour = 12, minute = 0, second = 0,
                           microsecond = 0, utcoffset = 3600\<rparr>),
     (''phone_account_hidden'', VBool False),
     (''photo_id'', VInt 0),
     (''subscription_component_name'', VStr ''com.android.phone''),
     (''type'', VCallType MISSED),
     (''presentation'', VNumberPresentation ALLOWED),
     (''duration'', VTimedelta \<lparr>days = 0, seconds = 3661, microseconds = 0\<rparr>),
     (''subscription_id'', VInt 1),
     (''is_read'', VBool True),
     (''number'', VStr ''+4312345''),
     (''features'', VCallFeatures 104),
     (''via_number'', VStr []),
     (''last_modified'', VDatetime \<lparr>year = 2024, month = 3, day = 5, hour = 12, minute = 0,
                                    second = 0, microsecond = 0, utcoffset = 3600\<rparr>),
     (''new'', VBool True),
     (''missed_reason'', VMissedReason 196608),
     (''phone_account_address'', VStr []),
     (''add_for_all_users'', VBool True),
     (''block_reason'', VBlockedReason NOT_BLOCKED),
     (''priority'', VInt 0),
     (''countryiso'', VStr ''AT''),
     (''is_call_log_phone_account_migration_pending'', VBool False),
     (''post_dial_digits'', VStr []),
     (''transcription_state'', VBool False),
     (''_id'', VInt 17),
     (''subject'', VNone),
     (''matched_number'', VNone),
     (''formatted_nummer'', VNone),
     (''normalized_number'', VNone),
     (''lookup_uri'', VNone),
     (''name'', VStr []),
     (''display_name'', VStr []),
     (''numbertype'', VNumberType MOBILE),
     (''data_usage'', VNone),
     (''geocoded_location'', VStr [])]"

subsection \<open>Presence and decodability of a field\<close>

text \<open>A field is in order for an input dictionary when it is absent and has a default, or
  present with a raw value that the decoder accepts.\<close>

definition field_ok :: "(int \<Rightarrow> exn + datetime) \<Rightarrow> jobj \<Rightarrow> dfield \<Rightarrow> bool" where
  "field_ok to_local obj f =
     (case obj (f_name f) of
        None \<Rightarrow> f_default f \<noteq> None
      | Some v \<Rightarrow> \<not> isl (decode_value to_local (f_type f) v))"

text \<open>The names of the fields of the record.\<close>

definition field_names_set :: "string set" where
  "field_names_set = set (map f_name PhoneCall_fields)"

text \<open>The wording ``every field without default is present and decodable'', with nothing
  asked of the fields that have a default.\<close>

definition required_ok :: "(int \<Rightarrow> exn + datetime) \<Rightarrow> jobj \<Rightarrow> bool" where
  "required_ok to_local obj =
     list_all (\<lambda>f. f_default f \<noteq> None
                   \<or> (case obj (f_name f) of
                         None \<Rightarrow> False
                       | Some v \<Rightarrow> \<not> isl (decode_value to_local (f_type f) v)))
       PhoneCall_fields"

text \<open>The input dictionaries of a document, and an input dictionary without the keys that
  are fields of the record.\<close>

fun objs_of :: "json_doc \<Rightarrow> jobj list" where
  "objs_of (JOne obj) = [obj]"
| "objs_of (JMany objs) = objs"

definition without_fields :: "jobj \<Rightarrow> jobj" where
  "without_fields obj = obj |` (- field_names_set)"

text \<open>An attribute of the record that \<^verbatim>\<open>from_json\<close> returned for one dictionary; \<open>None\<close>
  when it raised.\<close>

fun decoded_attr :: "(exn + decoded) \<Rightarrow> string \<Rightarrow> pyval option" where
  "decoded_attr (Inr (One c)) k = c k"
| "decoded_attr r k = None"

text \<open>The declared members of the four \<^verbatim>\<open>IntEnum\<close> classes, by value.\<close>

fun defined_member :: "ftype \<Rightarrow> int \<Rightarrow> bool" where
  "defined_member TCallType n = (by_value CallType_value CallType_members n \<noteq> None)"
| "defined_member TNumberType n = (by_value NumberType_value NumberType_members n \<noteq> None)"
| "defined_member TBlockedReason n =
     (by_value BlockedReason_value BlockedReason_members n \<noteq> None)"
| "defined_member TNumberPresentation n =
     (by_value NumberPresentation_value NumberPresentation_members n \<noteq> None)"
| "defined_member t n = False"

definition is_int_enum :: "ftype \<Rightarrow> bool" where
  "is_int_enum t = (t \<in> set [TCallType, TNumberType, TBlockedReason, TNumberPresentation])"

text \<open>The pairs \<open>(x, y)\<close> of elements of a list with \<open>x\<close> before \<open>y\<close>.\<close>

fun ordered_pairs :: "'a list \<Rightarrow> ('a \<times> 'a) list" where
  "ordered_pairs [] = []"
| "ordered_pairs (x # xs) = map (Pair x) xs @ ordered_pairs xs"

subsection \<open>Reading a rendered timestamp\<close>

text \<open>The shape \<^verbatim>\<open>DD.MM.YYYY\<close>: ten characters, digits around two dots.\<close>

definition is_DDMMYYYY :: "string \<Rightarrow> bool" where
  "is_DDMMYYYY s =
     (length s = 10 \<and> is_digit (s ! 0) \<and> is_digit (s ! 1) \<and> s ! 2 = CHR ''.''
      \<and> is_digit (s ! 3) \<and> is_digit (s ! 4) \<and> s ! 5 = CHR ''.''
      \<and> is_digit (s ! 6) \<and> is_digit (s ! 7) \<and> is_digit (s ! 8) \<and> is_digit (s ! 9))"

text \<open>
  The reading of a text of the form \<^verbatim>\<open>DD.MM.YYYY HH:MM:SS\<close>: year, month, day, hour, minute
  and second, or nothing when the text has another form.
\<close>

definition read_timestamp :: "string \<Rightarrow> (nat \<times> nat \<times> nat \<times> nat \<times> nat \<times> nat) option" where
  "read_timestamp s =
     (if is_DDMMYYYY (take 10 s) \<and> length s = 19 \<and> s ! 10 = CHR '' ''
         \<and> is_HHMMSS (drop 11 s)
      then Some (digits_value 0 (take 4 (drop 6 s)),
                 digits_value 0 (take 2 (drop 3 s)),
                 digits_value 0 (take 2 s),
                 digits_value 0 (take 2 (drop 11 s)),
                 digits_value 0 (take 2 (drop 14 s)),
                 digits_value 0 (take 2 (drop 17 s)))
      else None)"

subsection \<open>The date range\<close>

text \<open>The two bounds that \<^verbatim>\<open>convert_to_csv\<close> computes first: midnight of the start day, and
  midnight of the stop day plus one day.\<close>

definition start_bound :: "int \<Rightarrow> day_arg option \<Rightarrow> datetime option" where
  "start_bound tz_off start_date = map_option (combine tz_off) start_date"

definition stop_bound :: "int \<Rightarrow> day_arg option \<Rightarrow> exn + datetime option" where
  "stop_bound tz_off stop_date =
     (case stop_date of
        None \<Rightarrow> Inr None
      | Some s \<Rightarrow> (case add_one_day (combine tz_off s) of
                     Inl e \<Rightarrow> Inl e
                   | Inr d \<Rightarrow> Inr (Some d)))"

text \<open>A record is older than the start bound; a record is at or after the stop bound.\<close>

definition before_start :: "datetime option \<Rightarrow> PhoneCall \<Rightarrow> bool" where
  "before_start start c =
     (case start of None \<Rightarrow> False | Some s \<Rightarrow> date_cmp dt_lt c s = Inr True)"

definition past_stop :: "datetime option \<Rightarrow> PhoneCall \<Rightarrow> bool" where
  "past_stop stop c =
     (case stop of None \<Rightarrow> False | Some s \<Rightarrow> date_cmp dt_ge c s = Inr True)"

text \<open>The row of a record in the default columns.\<close>

definition default_row :: "PhoneCall \<Rightarrow> pyval list" where
  "default_row c = (case csv_row c None of Inr r \<Rightarrow> r | Inl e \<Rightarrow> [])"

section \<open>Auxiliary facts\<close>

lemma field_names:
  "map f_name PhoneCall_fields =
    [''date'', ''phone_account_hidden'', ''photo_id'', ''subscription_component_name'', ''type'',
     ''presentation'', ''duration'', ''subscription_id'', ''is_read'', ''number'', ''features'',
     ''via_number'', ''last_modified'', ''new'', ''missed_reason'', ''phone_account_address'',
     ''add_for_all_users'', ''block_reason'', ''priority'', ''countryiso'',
     ''is_call_log_phone_account_migration_pending'', ''post_dial_digits'',
     ''transcription_state'', ''_id'', ''subject'', ''matched_number'', ''formatted_nummer'',
     ''normalized_number'', ''lookup_uri'', ''name'', ''display_name'', ''numbertype'',
     ''data_usage'', ''geocoded_location'']"
  by (simp add: PhoneCall_fields_def fld_def fld_d_def)

subsection \<open>Decimal digits\<close>

lemma str_nat_lt10: "n < 10 \<Longrightarrow> str_nat n = [digit_char n]"
  by (simp add: str_nat.simps)

lemma str_nat_lt100:
  "10 \<le> n \<Longrightarrow> n < 100 \<Longrightarrow> str_nat n = [digit_char (n div 10), digit_char (n mod 10)]"
  by (subst str_nat.simps) (simp add: str_nat_lt10)

lemma fmt_0d_2:
  assumes "n < 100"
  shows "fmt_0d 2 (int n) = [digit_char (n div 10), digit_char (n mod 10)]"
proof (cases "n < 10")
  case True
  then show ?thesis by (simp add: fmt_0d_def rjust_def str_nat_lt10 digit_char_def)
next
  case False
  with assms show ?thesis by (simp add: fmt_0d_def rjust_def str_nat_lt100)
qed

lemma digit_cases: "k < 10 \<Longrightarrow> k \<in> {0, 1, 2, 3, 4, 5, 6, 7, 8, 9 :: nat}"
  by auto

lemma is_digit_digit_char: "k < 10 \<Longrightarrow> is_digit (digit_char k)"
  using digit_cases [of k] by (auto simp: is_digit_def digit_char_def)

lemma digit_val_digit_char: "k < 10 \<Longrightarrow> digit_val (digit_char k) = k"
  using digit_cases [of k] by (auto simp: digit_val_def digit_char_def)

lemma str_int_nat: "str_int (int k) = str_nat k"
  by (simp add: str_int_def)

subsection \<open>Rows of one column\<close>

lemma csv_row_single:
  "f \<in> set (map f_name PhoneCall_fields) \<Longrightarrow> csv_row self (Some [f]) = csv_cells self {f} [f]"
  by (auto simp: csv_row_def Let_def)

lemma known_not_numer: "k \<in> set (map f_name PhoneCall_fields) \<Longrightarrow> k \<noteq> ''formatted_numer''"
  by (auto simp: field_names)

lemma csv_row_plain_column:
  assumes k: "k \<in> set (map f_name PhoneCall_fields)" and "k \<noteq> ''date''" and v: "self k = Some v"
    and "\<forall>d. v \<noteq> VDatetime d" and "\<forall>td. v \<noteq> VTimedelta td"
  shows "csv_row self (Some [k]) =
     Inr [VStr (case v of VBool b \<Rightarrow> if b then ''Yes'' else ''No'' | VNone \<Rightarrow> []
                | VInt n \<Rightarrow> str_int n | VStr s \<Rightarrow> s | VCallType m \<Rightarrow> CallType_str m
                | VNumberType m \<Rightarrow> NumberType_str m | VBlockedReason m \<Rightarrow> BlockedReason_str m
                | VNumberPresentation m \<Rightarrow> NumberPresentation_str m
                | VMissedReason x \<Rightarrow> MissedReason_str x | VCallFeatures x \<Rightarrow> CallFeatures_str x
                | _ \<Rightarrow> [])]"
proof -
  have t: "k \<noteq> ''time''" using k by (auto simp: field_names)
  have n: "k \<noteq> ''formatted_numer''" using k by (rule known_not_numer)
  have "csv_row self (Some [k]) = csv_cells self {k} [k]" using k by (rule csv_row_single)
  then show ?thesis
    using assms(2,4,5) t n v
    by (cases v) (simp_all add: csv_cell_def getattr_none_def numer_or_def)
qed

subsection \<open>Reading back a written integer\<close>

lemma str_nat_digits: "str_nat n \<noteq> [] \<and> (\<forall>c \<in> set (str_nat n). is_digit c)"
proof (induction n rule: str_nat.induct)
  case (1 n)
  show ?case
  proof (cases "n < 10")
    case True
    then show ?thesis by (simp add: str_nat_lt10 is_digit_digit_char)
  next
    case False
    then have "str_nat n = str_nat (n div 10) @ [digit_char (n mod 10)]"
      by (subst str_nat.simps) simp
    with 1 False show ?thesis by (simp add: is_digit_digit_char)
  qed
qed

lemma digits_value_append:
  "digits_value acc (xs @ ys) = digits_value (digits_value acc xs) ys"
  by (induction xs arbitrary: acc) simp_all

lemma digits_value_str_nat: "digits_value 0 (str_nat n) = n"
proof (induction n rule: str_nat.induct)
  case (1 n)
  show ?case
  proof (cases "n < 10")
    case True
    then show ?thesis by (simp add: str_nat_lt10 digit_val_digit_char)
  next
    case False
    then have "str_nat n = str_nat (n div 10) @ [digit_char (n mod 10)]"
      by (subst str_nat.simps) simp
    with 1 False show ?thesis
      by (simp add: digits_value_append digit_val_digit_char)
  qed
qed

lemma digits_ok_digits:
  "\<forall>c \<in> set s. is_digit c \<Longrightarrow> digits_ok p s = (s \<noteq> [] \<or> p)"
  by (induction s arbitrary: p) simp_all

lemma digit_not_space: "is_digit c \<Longrightarrow> \<not> is_space c"
  by (auto simp: is_digit_def is_space_def)

lemma digit_not_sign: "is_digit c \<Longrightarrow> c \<noteq> CHR ''-'' \<and> c \<noteq> CHR ''+''"
  by (auto simp: is_digit_def)

lemma strip_no_space:
  assumes "s \<noteq> []" and "\<not> is_space (hd s)" and "\<not> is_space (last s)"
  shows "strip s = s"
proof -
  have a: "dropWhile is_space s = s" using assms(1,2) by (cases s) simp_all
  have "rev s \<noteq> []" and "\<not> is_space (hd (rev s))"
    using assms(1,3) by (simp_all add: hd_rev)
  then have "dropWhile is_space (rev s) = rev s" by (cases "rev s") simp_all
  with a show ?thesis by (simp add: strip_def)
qed

lemma int_of_str_digits:
  assumes "length (str_nat k) \<le> 4300"
  shows "int_of_str (str_nat k) = Inr (int k)"
    and "int_of_str (CHR ''-'' # str_nat k) = Inr (- int k)"
proof -
  let ?ds = "str_nat k"
  from str_nat_digits [of k] have ne: "?ds \<noteq> []" and dig: "\<forall>c \<in> set ?ds. is_digit c"
    by simp_all
  have hd: "is_digit (hd ?ds)" and last: "is_digit (last ?ds)" using ne dig by simp_all
  have filt: "filter is_digit ?ds = ?ds" using dig by simp
  have ok: "digits_ok False ?ds" using digits_ok_digits [OF dig] ne by simp
  have s1: "strip ?ds = ?ds"
    using ne hd last by (intro strip_no_space) (simp_all add: digit_not_space)
  have "\<not> is_space CHR ''-''" by (simp add: is_space_def)
  then have s2: "strip (CHR ''-'' # ?ds) = CHR ''-'' # ?ds"
    using ne last by (intro strip_no_space) (simp_all add: digit_not_space)
  have scan: "takeWhile is_digit_or_underscore ?ds = ?ds"
    "dropWhile is_digit_or_underscore ?ds = []"
    using dig by (simp_all add: is_digit_or_underscore_def)
  show "int_of_str ?ds = Inr (int k)"
    using ne digit_not_sign [OF hd] ok filt assms
    by (simp add: int_of_str_def s1 Let_def scan digits_value_str_nat)
  show "int_of_str (CHR ''-'' # ?ds) = Inr (- int k)"
    using ok filt assms
    by (simp add: int_of_str_def s2 Let_def scan digits_value_str_nat)
qed

lemma int_of_str_str_int:
  assumes "length (str_int n) \<le> 4300"
  shows "int_of_str (str_int n) = Inr n"
proof (cases "n < 0")
  case True
  with assms have "length (str_nat (nat (- n))) \<le> 4300" by (simp add: str_int_def)
  from int_of_str_digits(2) [OF this] True show ?thesis by (simp add: str_int_def)
next
  case False
  with assms have "length (str_nat (nat n)) \<le> 4300" by (simp add: str_int_def)
  from int_of_str_digits(1) [OF this] False show ?thesis by (simp add: str_int_def)
qed

lemma length_str_nat: "0 < k \<Longrightarrow> n < 10 ^ k \<Longrightarrow> length (str_nat n) \<le> k"
proof (induction n arbitrary: k rule: str_nat.induct)
  case (1 n)
  show ?case
  proof (cases "n < 10")
    case True
    with 1 show ?thesis by (simp add: str_nat_lt10)
  next
    case False
    then have eq: "str_nat n = str_nat (n div 10) @ [digit_char (n mod 10)]"
      by (subst str_nat.simps) simp
    obtain j where k: "k = Suc j" using 1(2) by (cases k) auto
    with 1(3) False have j: "0 < j" by (cases j) auto
    from 1(3) k have "n div 10 < 10 ^ j" by (simp add: less_mult_imp_div_less mult.commute)
    from 1(1) [OF False j this] eq k show ?thesis by simp
  qed
qed

lemma int_of_str_small:
  assumes "0 \<le> v" and "v < 10 ^ k" and "0 < k" and "k \<le> 4300"
  shows "int_of_str (str_int v) = Inr v"
proof -
  from assms(1,2) have "nat v < 10 ^ k" by (simp add: nat_less_iff)
  with assms(3) have "length (str_nat (nat v)) \<le> k" by (intro length_str_nat)
  with assms(1,4) show ?thesis by (intro int_of_str_str_int) (simp add: str_int_def)
qed

section \<open>The decoding loops\<close>

lemma name_neq: "k \<notin> set (map f_name fs) \<Longrightarrow> g \<in> set fs \<Longrightarrow> f_name g \<noteq> k"
  by auto

lemma decode_fields_out_obj:
  assumes "decode_fields tz pos fs obj call out = (Inr call', obj', out')"
  shows "out' = out \<and> obj' = obj |` (- set (map f_name fs))"
  using assms
proof (induction fs arbitrary: obj call)
  case Nil
  then show ?case by simp
next
  case (Cons f fs)
  show ?case
  proof (cases "f_default f \<noteq> None \<and> obj (f_name f) = None")
    case True
    with Cons.prems have "decode_fields tz pos fs obj call out = (Inr call', obj', out')"
      by simp
    from Cons.IH [OF this] True show ?thesis
      by (auto simp: restrict_map_def fun_eq_iff)
  next
    case False
    with Cons.prems obtain v x where v: "obj (f_name f) = Some v"
      and x: "decode_value tz (f_type f) v = Inr x"
      and rec: "decode_fields tz pos fs (obj(f_name f := None)) (call(f_name f \<mapsto> x)) out
                = (Inr call', obj', out')"
      by (auto split: option.splits sum.splits if_splits)
    from Cons.IH [OF rec] show ?thesis
      by (auto simp: restrict_map_def fun_eq_iff)
  qed
qed

lemma decode_fields_attrs:
  assumes "decode_fields tz pos fs obj call out = (Inr call', obj', out')"
    and "distinct (map f_name fs)"
  shows "(\<forall>k. k \<notin> set (map f_name fs) \<longrightarrow> call' k = call k)
       \<and> (\<forall>f \<in> set fs. case obj (f_name f) of
                            None \<Rightarrow> call' (f_name f) = call (f_name f)
                          | Some v \<Rightarrow> \<exists>x. decode_value tz (f_type f) v = Inr x
                                          \<and> call' (f_name f) = Some x)"
  using assms
proof (induction fs arbitrary: obj call)
  case Nil
  then show ?case by simp
next
  case (Cons f fs)
  from Cons.prems(2) have dist: "distinct (map f_name fs)" and new: "f_name f \<notin> set (map f_name fs)"
    by simp_all
  show ?case
  proof (cases "f_default f \<noteq> None \<and> obj (f_name f) = None")
    case True
    with Cons.prems have rec: "decode_fields tz pos fs obj call out = (Inr call', obj', out')"
      by simp
    from Cons.IH [OF rec dist] True new show ?thesis
      by auto
  next
    case False
    with Cons.prems obtain v x where v: "obj (f_name f) = Some v"
      and x: "decode_value tz (f_type f) v = Inr x"
      and rec: "decode_fields tz pos fs (obj(f_name f := None)) (call(f_name f \<mapsto> x)) out
                = (Inr call', obj', out')"
      by (auto split: option.splits sum.splits if_splits)
    from Cons.IH [OF rec dist]
    have a: "\<forall>k. k \<notin> set (map f_name fs) \<longrightarrow> call' k = (call(f_name f \<mapsto> x)) k"
      and b: "\<forall>g \<in> set fs. case (obj(f_name f := None)) (f_name g) of
                   None \<Rightarrow> call' (f_name g) = (call(f_name f \<mapsto> x)) (f_name g)
                 | Some v \<Rightarrow> \<exists>x. decode_value tz (f_type g) v = Inr x \<and> call' (f_name g) = Some x"
      by simp_all
    have here: "call' (f_name f) = Some x" using a new by simp
    have others: "\<And>g. g \<in> set fs \<Longrightarrow> f_name g \<noteq> f_name f" using new by (rule name_neq)
    have c: "\<forall>g \<in> set fs. case obj (f_name g) of
                   None \<Rightarrow> call' (f_name g) = call (f_name g)
                 | Some v \<Rightarrow> \<exists>x. decode_value tz (f_type g) v = Inr x \<and> call' (f_name g) = Some x"
    proof
      fix g assume g: "g \<in> set fs"
      with b others [OF g] show "case obj (f_name g) of
                   None \<Rightarrow> call' (f_name g) = call (f_name g)
                 | Some v \<Rightarrow> \<exists>x. decode_value tz (f_type g) v = Inr x \<and> call' (f_name g) = Some x"
        by (auto split: option.splits dest!: bspec [where x = g])
    qed
    from a c here v x show ?thesis by auto
  qed
qed

lemma field_ok_pop:
  "f_name g \<noteq> k \<Longrightarrow> field_ok tz (obj(k := None)) g = field_ok tz obj g"
  by (simp add: field_ok_def)

lemma decode_fields_succeeds_iff:
  assumes "distinct (map f_name fs)"
  shows "(\<exists>c. fst (decode_fields tz pos fs obj call out) = Inr c) \<longleftrightarrow> list_all (field_ok tz obj) fs"
  using assms
proof (induction fs arbitrary: obj call)
  case Nil
  then show ?case by simp
next
  case (Cons f fs)
  from Cons.prems have dist: "distinct (map f_name fs)" and new: "f_name f \<notin> set (map f_name fs)"
    by simp_all
  have pop: "list_all (field_ok tz (obj(f_name f := None))) fs = list_all (field_ok tz obj) fs"
    using name_neq [OF new] by (simp add: list_all_iff field_ok_pop)
  show ?case
  proof (cases "obj (f_name f)")
    case None
    show ?thesis
    proof (cases "f_default f")
      case nodef: None
      have "\<not> field_ok tz obj f" using None nodef by (simp add: field_ok_def)
      moreover have "decode_fields tz pos (f # fs) obj call out = (Inl (KeyError (f_name f)), obj, out)"
        using None nodef by simp
      ultimately show ?thesis by simp
    next
      case (Some d)
      have fok: "field_ok tz obj f" using None Some by (simp add: field_ok_def)
      have step: "decode_fields tz pos (f # fs) obj call out = decode_fields tz pos fs obj call out"
        using None Some by simp
      show ?thesis
        unfolding step using Cons.IH [OF dist, of obj call] fok by simp
    qed
  next
    case (Some v)
    show ?thesis
    proof (cases "decode_value tz (f_type f) v")
      case (Inl e)
      have "\<not> field_ok tz obj f" using Some Inl by (simp add: field_ok_def)
      moreover have "\<exists>o' out'. decode_fields tz pos (f # fs) obj call out = (Inl e, o', out')"
        using Some Inl by simp
      ultimately show ?thesis by auto
    next
      case (Inr x)
      have fok: "field_ok tz obj f" using Some Inr by (simp add: field_ok_def)
      have step: "decode_fields tz pos (f # fs) obj call out
                  = decode_fields tz pos fs (obj(f_name f := None)) (call(f_name f \<mapsto> x)) out"
        using Some Inr by simp
      have "(\<exists>c. fst (decode_fields tz pos fs (obj(f_name f := None)) (call(f_name f \<mapsto> x)) out)
                  = Inr c) \<longleftrightarrow> list_all (field_ok tz (obj(f_name f := None))) fs"
        by (rule Cons.IH [OF dist])
      also have "\<dots> \<longleftrightarrow> list_all (field_ok tz obj) fs" by (rule pop)
      also have "\<dots> \<longleftrightarrow> list_all (field_ok tz obj) (f # fs)" using fok by simp
      finally show ?thesis unfolding step .
    qed
  qed
qed

lemma distinct_field_names: "distinct (map f_name PhoneCall_fields)"
  unfolding field_names by simp

lemma find_by_name:
  "distinct (map f_name fs) \<Longrightarrow> f \<in> set fs \<Longrightarrow> find (\<lambda>g. f_name g = f_name f) fs = Some f"
  by (induction fs) (auto simp: image_iff)

lemma find_by_name_None:
  "k \<notin> set (map f_name fs) \<Longrightarrow> find (\<lambda>g. f_name g = k) fs = None"
  by (induction fs) auto

text \<open>The attributes of the record built after a successful inner loop.\<close>

lemma decoded_attribute:
  assumes ok: "decode_fields tz pos PhoneCall_fields obj Map.empty out = (Inr call, obj', out')"
    and f: "f \<in> set PhoneCall_fields"
  shows "case obj (f_name f) of
           None \<Rightarrow> f_default f \<noteq> None \<and> PhoneCall_init call (f_name f) = f_default f
         | Some v \<Rightarrow> \<exists>x. decode_value tz (f_type f) v = Inr x
                         \<and> PhoneCall_init call (f_name f) = Some x"
proof -
  from decode_fields_attrs [OF ok distinct_field_names] f
  have a: "case obj (f_name f) of
             None \<Rightarrow> call (f_name f) = Map.empty (f_name f)
           | Some v \<Rightarrow> \<exists>x. decode_value tz (f_type f) v = Inr x \<and> call (f_name f) = Some x"
    by blast
  have "\<exists>c. fst (decode_fields tz pos PhoneCall_fields obj Map.empty out) = Inr c"
    using ok by simp
  then have "list_all (field_ok tz obj) PhoneCall_fields"
    using decode_fields_succeeds_iff [OF distinct_field_names] by blast
  with f have fok: "field_ok tz obj f" by (simp add: list_all_iff)
  show ?thesis
  proof (cases "obj (f_name f)")
    case None
    with a have "call (f_name f) = None" by simp
    moreover have "find (\<lambda>g. f_name g = f_name f) PhoneCall_fields = Some f"
      by (rule find_by_name [OF distinct_field_names f])
    ultimately show ?thesis using None fok
      by (simp add: PhoneCall_init_def field_ok_def)
  next
    case (Some v)
    with a show ?thesis by (auto simp: PhoneCall_init_def)
  qed
qed

lemma decoded_other_attribute:
  assumes ok: "decode_fields tz pos PhoneCall_fields obj Map.empty out = (Inr call, obj', out')"
    and k: "k \<notin> set (map f_name PhoneCall_fields)"
  shows "PhoneCall_init call k = None"
proof -
  from decode_fields_attrs [OF ok distinct_field_names] k have "call k = None" by simp
  then show ?thesis using find_by_name_None [OF k] by (simp add: PhoneCall_init_def)
qed

text \<open>\<^verbatim>\<open>from_json\<close> on one dictionary.\<close>

lemma from_json_one:
  "from_json tz (JOne obj) =
     (case decode_fields tz None PhoneCall_fields obj Map.empty [] of
        (Inl e, obj', out) \<Rightarrow> (Inl e, [obj'], out)
      | (Inr call, obj', out) \<Rightarrow> (Inr (One (PhoneCall_init call)), [obj'], out))"
  by (simp split: prod.splits sum.splits)

lemma from_json_one_Inr:
  assumes "from_json tz (JOne obj) = (Inr (One c), objs', out)"
  obtains call obj' where "decode_fields tz None PhoneCall_fields obj Map.empty [] = (Inr call, obj', out)"
    and "c = PhoneCall_init call" and "objs' = [obj']"
  using assms unfolding from_json_one by (auto split: prod.splits sum.splits)

text \<open>The outer loop.\<close>

lemma decode_all_Inr:
  assumes "decode_all tz m objs calls out = (Inr cs, objs', out')"
  shows "out' = out
       \<and> objs' = map (\<lambda>obj. obj |` (- set (map f_name PhoneCall_fields))) objs
       \<and> (\<exists>new. cs = calls @ new \<and> length new = length objs
             \<and> (\<forall>i < length objs. \<exists>pos call o' out''.
                    decode_fields tz pos PhoneCall_fields (objs ! i) Map.empty out = (Inr call, o', out'')
                    \<and> new ! i = PhoneCall_init call))"
  using assms
proof (induction objs arbitrary: calls objs' cs)
  case Nil
  then show ?case by simp
next
  case (Cons obj rest)
  let ?pos = "if m then Some (length calls + 1) else None"
  from Cons.prems obtain call obj1 out1 objs1 where
    one: "decode_fields tz ?pos PhoneCall_fields obj Map.empty out = (Inr call, obj1, out1)"
    and rest: "decode_all tz m rest (calls @ [PhoneCall_init call]) out1 = (Inr cs, objs1, out')"
    and objs': "objs' = obj1 # objs1"
    by (auto split: prod.splits sum.splits)
  from decode_fields_out_obj [OF one]
  have o1: "out1 = out" and ob1: "obj1 = obj |` (- set (map f_name PhoneCall_fields))" by simp_all
  from Cons.IH [OF rest [unfolded o1]] obtain new where
    a: "out' = out" and b: "objs1 = map (\<lambda>obj. obj |` (- set (map f_name PhoneCall_fields))) rest"
    and c: "cs = (calls @ [PhoneCall_init call]) @ new" and d: "length new = length rest"
    and e: "\<forall>i < length rest. \<exists>pos call o' out''.
               decode_fields tz pos PhoneCall_fields (rest ! i) Map.empty out = (Inr call, o', out'')
               \<and> new ! i = PhoneCall_init call"
    by (auto simp: o1)
  have "\<forall>i < length (obj # rest). \<exists>pos call' o' out''.
           decode_fields tz pos PhoneCall_fields ((obj # rest) ! i) Map.empty out = (Inr call', o', out'')
           \<and> (PhoneCall_init call # new) ! i = PhoneCall_init call'"
  proof (intro allI impI)
    fix i assume "i < length (obj # rest)"
    show "\<exists>pos call' o' out''.
           decode_fields tz pos PhoneCall_fields ((obj # rest) ! i) Map.empty out = (Inr call', o', out'')
           \<and> (PhoneCall_init call # new) ! i = PhoneCall_init call'"
    proof (cases i)
      case 0
      with one show ?thesis by auto
    next
      case (Suc j)
      with \<open>i < length (obj # rest)\<close> have "j < length rest" by simp
      with e Suc show ?thesis by simp
    qed
  qed
  with a b c d objs' ob1 show ?case
    by (intro conjI exI [where x = "PhoneCall_init call # new"]) simp_all
qed

lemma fst_decode_fields_pos:
  "fst (decode_fields tz pos fs obj call out) = fst (decode_fields tz None fs obj call [])"
  by (induction fs arbitrary: obj call) (auto split: option.splits sum.splits)

lemma decode_all_succeeds_iff:
  "(\<exists>cs. fst (decode_all tz m objs calls out) = Inr cs)
     \<longleftrightarrow> list_all (\<lambda>obj. list_all (field_ok tz obj) PhoneCall_fields) objs"
proof (induction objs arbitrary: calls out)
  case Nil
  then show ?case by simp
next
  case (Cons obj rest)
  let ?pos = "if m then Some (length calls + 1) else None"
  obtain r o1 out1 where d: "decode_fields tz ?pos PhoneCall_fields obj Map.empty out = (r, o1, out1)"
    by (cases "decode_fields tz ?pos PhoneCall_fields obj Map.empty out") auto
  have iff: "(\<exists>c. r = Inr c) \<longleftrightarrow> list_all (field_ok tz obj) PhoneCall_fields"
    using decode_fields_succeeds_iff [OF distinct_field_names, of tz ?pos obj Map.empty out] d
    by simp
  show ?case
  proof (cases r)
    case (Inl e)
    with d iff show ?thesis by auto
  next
    case (Inr call)
    have "fst (decode_all tz m (obj # rest) calls out)
          = fst (decode_all tz m rest (calls @ [PhoneCall_init call]) out1)"
      using d Inr by (simp split: prod.splits)
    with Cons.IH [of "calls @ [PhoneCall_init call]" out1] iff Inr show ?thesis by simp
  qed
qed

lemma from_json_succeeds_iff:
  "(\<exists>r. fst (from_json tz doc) = Inr r)
     \<longleftrightarrow> list_all (\<lambda>obj. list_all (field_ok tz obj) PhoneCall_fields) (objs_of doc)"
proof (cases doc)
  case (JOne obj)
  have "(\<exists>r. fst (from_json tz (JOne obj)) = Inr r)
        \<longleftrightarrow> (\<exists>c. fst (decode_fields tz None PhoneCall_fields obj Map.empty []) = Inr c)"
    unfolding from_json_one by (auto split: prod.splits sum.splits)
  then show ?thesis
    using decode_fields_succeeds_iff [OF distinct_field_names, of tz None obj Map.empty "[]"] JOne
    by simp
next
  case (JMany objs)
  have "(\<exists>r. fst (from_json tz (JMany objs)) = Inr r)
        \<longleftrightarrow> (\<exists>cs. fst (decode_all tz True objs [] []) = Inr cs)"
    by (auto split: prod.splits sum.splits)
  then show ?thesis
    using decode_all_succeeds_iff [of tz True objs "[]" "[]"] JMany by simp
qed

lemma from_json_result_kind:
  assumes "from_json tz doc = (Inr r, objs', out)"
  shows "(\<exists>obj c. doc = JOne obj \<and> r = One c) \<or> (\<exists>objs cs. doc = JMany objs \<and> r = Many cs)"
  using assms by (cases doc) (auto simp: from_json_one split: prod.splits sum.splits)

lemma sample_obj_ok: "list_all (field_ok sample_to_local sample_obj) PhoneCall_fields"
  by (simp add: PhoneCall_fields_def fld_def fld_d_def field_ok_def sample_obj_def
        decode_value_def is_enum_def int_of_str_def is_digit_or_underscore_def strip_def is_space_def is_digit_def
        digit_val_def sample_to_local_def timedelta_seconds_def enum_member_def flag_member_def
        by_value_def CallType_members_def NumberType_members_def BlockedReason_members_def
        NumberPresentation_members_def)

lemma from_json_one_attribute:
  assumes ok: "from_json tz (JOne obj) = (Inr (One c), objs', out)"
    and f: "f \<in> set PhoneCall_fields"
  shows "case obj (f_name f) of
           None \<Rightarrow> f_default f \<noteq> None \<and> c (f_name f) = f_default f
         | Some v \<Rightarrow> \<exists>x. decode_value tz (f_type f) v = Inr x \<and> c (f_name f) = Some x"
proof -
  from ok obtain call obj' where
    d: "decode_fields tz None PhoneCall_fields obj Map.empty [] = (Inr call, obj', out)"
    and c: "c = PhoneCall_init call"
    by (rule from_json_one_Inr)
  show ?thesis unfolding c by (rule decoded_attribute [OF d f])
qed

lemma from_json_one_succeeds_iff:
  "(\<exists>c objs' out. from_json tz (JOne obj) = (Inr (One c), objs', out))
     \<longleftrightarrow> list_all (field_ok tz obj) PhoneCall_fields"
proof -
  have "(\<exists>c objs' out. from_json tz (JOne obj) = (Inr (One c), objs', out))
        \<longleftrightarrow> (\<exists>r. fst (from_json tz (JOne obj)) = Inr r)"
  proof
    assume "\<exists>r. fst (from_json tz (JOne obj)) = Inr r"
    then obtain r objs' out where ok: "from_json tz (JOne obj) = (Inr r, objs', out)"
      by (metis prod.collapse)
    from from_json_result_kind [OF ok] ok
    show "\<exists>c objs' out. from_json tz (JOne obj) = (Inr (One c), objs', out)" by auto
  qed auto
  then show ?thesis using from_json_succeeds_iff [of tz "JOne obj"] by simp
qed

lemma from_json_fails_unless_ok:
  assumes "f \<in> set PhoneCall_fields" and "\<not> field_ok tz obj f"
  shows "isl (fst (from_json tz (JOne obj)))"
proof -
  from assms have "\<not> list_all (field_ok tz obj) PhoneCall_fields"
    by (auto simp: list_all_iff)
  then have "\<not> (\<exists>r. fst (from_json tz (JOne obj)) = Inr r)"
    using from_json_succeeds_iff [of tz "JOne obj"] by simp
  then show ?thesis by (cases "fst (from_json tz (JOne obj))") auto
qed

lemmas eval_field =
  PhoneCall_fields_def fld_def fld_d_def field_ok_def
  decode_value_def is_enum_def int_of_str_def is_digit_or_underscore_def strip_def is_space_def is_digit_def
  digit_val_def sample_to_local_def timedelta_seconds_def enum_member_def flag_member_def
  by_value_def CallType_members_def NumberType_members_def BlockedReason_members_def
  NumberPresentation_members_def

section \<open>Undefined codes of enumerations and flag sets\<close>

lemma flag_call_nonneg: "0 \<le> n \<Longrightarrow> flag_call m n = n"
  by (simp add: flag_call_def Let_def)

lemma decode_enum_string:
  assumes "is_enum t" and "int_of_str s = Inr n"
  shows "decode_value tz t (JStr s) = construct t (JInt n)"
  using assms by (auto simp: decode_value_def is_enum_def)

lemma construct_undefined:
  assumes "is_int_enum t" and "\<not> defined_member t n"
  shows "isl (construct t (JInt n))"
  using assms by (auto simp: is_int_enum_def enum_member_def)

lemma is_int_enum_is_enum: "is_int_enum t \<Longrightarrow> is_enum t"
  by (auto simp: is_int_enum_def is_enum_def)

lemma decode_flag_accepts:
  assumes "int_of_str s = Inr n" and "0 \<le> n"
  shows "decode_value tz TMissedReason (JStr s) = Inr (VMissedReason n)"
    and "decode_value tz TCallFeatures (JStr s) = Inr (VCallFeatures n)"
  using assms
  by (simp_all add: decode_enum_string is_enum_def flag_member_def flag_call_nonneg)

text \<open>
  Claim C1, as the code has it.  Let a field carry a string that \<^verbatim>\<open>int\<close> reads as \<open>n\<close>.
  If the field is one of the four enumerations (\<^verbatim>\<open>type\<close>, \<^verbatim>\<open>presentation\<close>,
  \<^verbatim>\<open>block_reason\<close>, \<^verbatim>\<open>numbertype\<close>) and \<open>n\<close> is not the value of a member, decoding fails and
  no record is built.  If the field is a flag set (\<^verbatim>\<open>missed_reason\<close>, \<^verbatim>\<open>features\<close>) and
  \<open>n \<ge> 0\<close>, the value is accepted whatever bits it has: it decodes to \<open>n\<close> itself, the field
  is in order, decoding succeeds exactly when the other fields are in order, and the record
  then holds \<open>n\<close>.
\<close>

theorem undefined_enum_code:
  assumes f: "f \<in> set PhoneCall_fields" and raw: "obj (f_name f) = Some (JStr s)"
    and n: "int_of_str s = Inr n"
  shows "(is_int_enum (f_type f) \<and> \<not> defined_member (f_type f) n
            \<longrightarrow> isl (fst (from_json tz (JOne obj))))
       \<and> (0 \<le> n \<and> (f_type f = TMissedReason \<or> f_type f = TCallFeatures) \<longrightarrow>
            decode_value tz (f_type f) (JStr s)
              = Inr (if f_type f = TMissedReason then VMissedReason n else VCallFeatures n)
            \<and> field_ok tz obj f
            \<and> ((\<exists>c objs' out. from_json tz (JOne obj) = (Inr (One c), objs', out))
                 \<longleftrightarrow> (\<forall>g \<in> set PhoneCall_fields. g \<noteq> f \<longrightarrow> field_ok tz obj g))
            \<and> (\<forall>c objs' out. from_json tz (JOne obj) = (Inr (One c), objs', out) \<longrightarrow>
                  c (f_name f)
                    = Some (if f_type f = TMissedReason then VMissedReason n else VCallFeatures n)))"
proof (intro conjI impI allI)
  assume h: "is_int_enum (f_type f) \<and> \<not> defined_member (f_type f) n"
  then have "decode_value tz (f_type f) (JStr s) = construct (f_type f) (JInt n)"
    using n by (simp add: decode_enum_string is_int_enum_is_enum)
  moreover have "isl (construct (f_type f) (JInt n))"
    using h by (simp add: construct_undefined)
  ultimately have "\<not> field_ok tz obj f" using raw by (simp add: field_ok_def)
  with f show "isl (fst (from_json tz (JOne obj)))" by (rule from_json_fails_unless_ok)
next
  assume h: "0 \<le> n \<and> (f_type f = TMissedReason \<or> f_type f = TCallFeatures)"
  show dec: "decode_value tz (f_type f) (JStr s)
              = Inr (if f_type f = TMissedReason then VMissedReason n else VCallFeatures n)"
    using h decode_flag_accepts [OF n, of tz] by auto
  then show ok: "field_ok tz obj f" using raw by (simp add: field_ok_def)
  have "list_all (field_ok tz obj) PhoneCall_fields
        \<longleftrightarrow> (\<forall>g \<in> set PhoneCall_fields. g \<noteq> f \<longrightarrow> field_ok tz obj g)"
    using ok by (auto simp: list_all_iff)
  then show "(\<exists>c objs' out. from_json tz (JOne obj) = (Inr (One c), objs', out))
                 \<longleftrightarrow> (\<forall>g \<in> set PhoneCall_fields. g \<noteq> f \<longrightarrow> field_ok tz obj g)"
    using from_json_one_succeeds_iff [of tz obj] by simp
  fix c objs' out
  assume "from_json tz (JOne obj) = (Inr (One c), objs', out)"
  from from_json_one_attribute [OF this f] raw dec
  show "c (f_name f) = Some (if f_type f = TMissedReason then VMissedReason n else VCallFeatures n)"
    by auto
qed

lemma int_of_str_99: "int_of_str ''99'' = Inr 99"
  by (simp add: int_of_str_def is_digit_or_underscore_def strip_def is_space_def is_digit_def digit_val_def)

lemma int_of_str_8: "int_of_str ''8'' = Inr 8"
  by (simp add: int_of_str_def is_digit_or_underscore_def strip_def is_space_def is_digit_def digit_val_def)

lemma sample_obj_unknown_bit_ok:
  "list_all (field_ok sample_to_local (sample_obj(''missed_reason'' \<mapsto> JStr ''8''))) PhoneCall_fields"
  by (simp add: eval_field sample_obj_def)

text \<open>The sample dictionary with \<^verbatim>\<open>type = "99"\<close> is refused; with \<^verbatim>\<open>missed_reason = "8"\<close> it is
  decoded and the record holds the flag value 8.\<close>

theorem undefined_enum_code_witness:
  "isl (fst (from_json sample_to_local (JOne (sample_obj(''type'' \<mapsto> JStr ''99'')))))
   \<and> \<not> defined_member TCallType 99
   \<and> (\<exists>c objs' out.
         from_json sample_to_local (JOne (sample_obj(''missed_reason'' \<mapsto> JStr ''8'')))
           = (Inr (One c), objs', out)
         \<and> c ''missed_reason'' = Some (VMissedReason 8))"
proof -
  have f1: "fld ''type'' TCallType \<in> set PhoneCall_fields"
    and f2: "fld ''missed_reason'' TMissedReason \<in> set PhoneCall_fields"
    by (simp_all add: PhoneCall_fields_def)
  have r1: "(sample_obj(''type'' \<mapsto> JStr ''99'')) (f_name (fld ''type'' TCallType)) = Some (JStr ''99'')"
    and r2: "(sample_obj(''missed_reason'' \<mapsto> JStr ''8'')) (f_name (fld ''missed_reason'' TMissedReason))
             = Some (JStr ''8'')"
    by (simp_all add: fld_def)
  have u: "\<not> defined_member TCallType 99"
    by (simp add: by_value_def CallType_members_def)
  have e: "is_int_enum (f_type (fld ''type'' TCallType))
           \<and> \<not> defined_member (f_type (fld ''type'' TCallType)) 99"
    using u by (simp add: fld_def is_int_enum_def)
  have a: "isl (fst (from_json sample_to_local (JOne (sample_obj(''type'' \<mapsto> JStr ''99'')))))"
    using conjunct1 [OF undefined_enum_code [where tz = sample_to_local
            and obj = "sample_obj(''type'' \<mapsto> JStr ''99'')", OF f1 r1 int_of_str_99]] e
    by (rule mp)
  note th2 = conjunct2 [OF undefined_enum_code [where tz = sample_to_local
            and obj = "sample_obj(''missed_reason'' \<mapsto> JStr ''8'')", OF f2 r2 int_of_str_8]]
  have flag: "(0::int) \<le> 8 \<and> (f_type (fld ''missed_reason'' TMissedReason) = TMissedReason
                \<or> f_type (fld ''missed_reason'' TMissedReason) = TCallFeatures)"
    by (simp add: fld_def)
  have others: "\<forall>g \<in> set PhoneCall_fields. g \<noteq> fld ''missed_reason'' TMissedReason \<longrightarrow>
                  field_ok sample_to_local (sample_obj(''missed_reason'' \<mapsto> JStr ''8'')) g"
    using sample_obj_unknown_bit_ok by (simp add: list_all_iff)
  from th2 flag others obtain c objs' out where
    ok: "from_json sample_to_local (JOne (sample_obj(''missed_reason'' \<mapsto> JStr ''8'')))
         = (Inr (One c), objs', out)"
    by blast
  have "c (f_name (fld ''missed_reason'' TMissedReason))
        = Some (if f_type (fld ''missed_reason'' TMissedReason) = TMissedReason
                then VMissedReason 8 else VCallFeatures 8)"
    using th2 flag ok by blast
  then have "c ''missed_reason'' = Some (VMissedReason 8)" by (simp add: fld_def)
  with a u ok show ?thesis by blast
qed

text \<open>
  The raw value \<^verbatim>\<open>"8"\<close> of \<^verbatim>\<open>missed_reason\<close> has one bit, which is the bit of no member of
  \<^verbatim>\<open>MissedReason\<close>; decoding succeeds, the record holds 8, and the cell reads \<^verbatim>\<open>8\<close>.
\<close>

theorem unknown_flag_bit_counterexample:
  "decoded_attr (fst (from_json sample_to_local (JOne (sample_obj(''missed_reason'' \<mapsto> JStr ''8'')))))
     ''missed_reason'' = Some (VMissedReason 8)
   \<and> flags_in MissedReason_bit MissedReason_members 8 = []
   \<and> MissedReason_str 8 = ''8''"
proof -
  obtain c objs' out where
    ok: "from_json sample_to_local (JOne (sample_obj(''missed_reason'' \<mapsto> JStr ''8'')))
         = (Inr (One c), objs', out)"
    using from_json_one_succeeds_iff sample_obj_unknown_bit_ok by blast
  have f2: "fld ''missed_reason'' TMissedReason \<in> set PhoneCall_fields"
    by (simp add: PhoneCall_fields_def)
  have masks: "flag_mask MissedReason_bit MissedReason_members = 8323079"
    by (simp add: flag_mask_def MissedReason_members_def)
  have d: "decode_value sample_to_local TMissedReason (JStr ''8'') = Inr (VMissedReason 8)"
    by (simp add: eval_field flag_call_nonneg)
  from from_json_one_attribute [OF ok f2]
  have "c ''missed_reason'' = Some (VMissedReason 8)"
    using d by (simp add: fld_def)
  then have a: "decoded_attr (fst (from_json sample_to_local
                    (JOne (sample_obj(''missed_reason'' \<mapsto> JStr ''8''))))) ''missed_reason''
                = Some (VMissedReason 8)"
    using ok by simp
  have b: "flags_in MissedReason_bit MissedReason_members 8 = []"
    by (simp add: flags_in_def MissedReason_members_def)
  have c: "MissedReason_str 8 = ''8''"
    by (simp add: MissedReason_str_def PrettyFlag_str_def flag_name_def b str_int_def
          str_nat.simps digit_char_def)
  from a b c show ?thesis by simp
qed

section \<open>The columns \<^verbatim>\<open>date\<close> and \<^verbatim>\<open>time\<close>\<close>

lemma str_nat_step: "10 \<le> n \<Longrightarrow> str_nat n = str_nat (n div 10) @ [digit_char (n mod 10)]"
  by (simp add: str_nat.simps [of n])

lemma str_nat_4:
  assumes "1000 \<le> n" "n < 10000"
  shows "str_nat n = [digit_char (n div 1000), digit_char (n div 100 mod 10),
                      digit_char (n div 10 mod 10), digit_char (n mod 10)]"
proof -
  have a: "str_nat n = str_nat (n div 10) @ [digit_char (n mod 10)]"
    using assms by (intro str_nat_step) simp
  have b: "str_nat (n div 10) = str_nat (n div 10 div 10) @ [digit_char (n div 10 mod 10)]"
    using assms by (intro str_nat_step) simp
  have c: "10 \<le> n div 10 div 10" "n div 10 div 10 < 100" using assms by simp_all
  have d: "n div 10 div 10 = n div 100" "n div 100 div 10 = n div 1000"
    by (simp_all add: div_mult2_eq)
  show ?thesis
    using str_nat_lt100 [OF c] by (simp add: a b d)
qed

lemma two_digits_value: "(n div 10) * 10 + n mod 10 = (n::nat)"
  by simp

lemma four_digits_value:
  "((n div 1000 * 10 + n div 100 mod 10) * 10 + n div 10 mod 10) * 10 + n mod 10 = (n::nat)"
proof -
  have a: "n div 100 = n div 10 div 10" "n div 1000 = n div 10 div 10 div 10"
    by (simp_all add: div_mult2_eq)
  show ?thesis unfolding a by (simp add: algebra_simps)
qed

lemma strftime_shapes:
  assumes wf: "wf_datetime d" and y: "1000 \<le> year d"
  shows "is_DDMMYYYY (strftime_dmY d)" and "is_HHMMSS (strftime_HMS d)"
    and "read_timestamp (strftime_dmY d @ '' '' @ strftime_HMS d)
         = Some (year d, month d, day d, hour d, minute d, second d)"
proof -
  have dim: "days_in_month (year d) (month d) \<le> 31"
    using wf unfolding wf_datetime_def days_in_month_def
    by (auto simp: nth_Cons' split: if_splits)
  have b: "day d < 100" "month d < 100" "hour d < 100" "minute d < 100" "second d < 100"
    "year d < 10000"
    using wf dim by (auto simp: wf_datetime_def)
  have dg: "\<And>k. k < 100 \<Longrightarrow> is_digit (digit_char (k div 10)) \<and> is_digit (digit_char (k mod 10))"
    by (simp add: is_digit_digit_char)
  have dy: "is_digit (digit_char (year d div 1000))" "is_digit (digit_char (year d div 100 mod 10))"
    "is_digit (digit_char (year d div 10 mod 10))" "is_digit (digit_char (year d mod 10))"
    using b(6) by (simp_all add: is_digit_digit_char)
  note fm = fmt_0d_2 [OF b(1)] fmt_0d_2 [OF b(2)] fmt_0d_2 [OF b(3)] fmt_0d_2 [OF b(4)]
    fmt_0d_2 [OF b(5)] str_nat_4 [OF y b(6)]
  show s1: "is_DDMMYYYY (strftime_dmY d)"
    using dg [OF b(1)] dg [OF b(2)] dy
    by (simp add: is_DDMMYYYY_def strftime_dmY_def fm)
  show s2: "is_HHMMSS (strftime_HMS d)"
    using dg [OF b(3)] dg [OF b(4)] dg [OF b(5)]
    by (simp add: is_HHMMSS_def strftime_HMS_def fm)
  have l1: "length (strftime_dmY d) = 10" and l2: "length (strftime_HMS d) = 8"
    using s1 s2 by (simp_all add: is_DDMMYYYY_def is_HHMMSS_def)
  have v: "\<And>k. k < 100 \<Longrightarrow> digit_val (digit_char (k div 10)) * 10 + digit_val (digit_char (k mod 10)) = k"
    by (simp add: digit_val_digit_char)
  have y4: "digit_val (digit_char (year d div 1000)) = year d div 1000"
    "digit_val (digit_char (year d div 100 mod 10)) = year d div 100 mod 10"
    "digit_val (digit_char (year d div 10 mod 10)) = year d div 10 mod 10"
    "digit_val (digit_char (year d mod 10)) = year d mod 10"
    using b(6) by (simp_all add: digit_val_digit_char)
  have vy: "((digit_val (digit_char (year d div 1000)) * 10
              + digit_val (digit_char (year d div 100 mod 10))) * 10
              + digit_val (digit_char (year d div 10 mod 10))) * 10
              + digit_val (digit_char (year d mod 10)) = year d"
    unfolding y4 by (rule four_digits_value)
  have "read_timestamp (strftime_dmY d @ '' '' @ strftime_HMS d)
        = Some (digits_value 0 (take 4 (drop 6 (strftime_dmY d))),
                digits_value 0 (take 2 (drop 3 (strftime_dmY d))),
                digits_value 0 (take 2 (strftime_dmY d)),
                digits_value 0 (take 2 (strftime_HMS d)),
                digits_value 0 (take 2 (drop 3 (strftime_HMS d))),
                digits_value 0 (take 2 (drop 6 (strftime_HMS d))))"
    using s1 s2 by (simp add: read_timestamp_def l1 l2 nth_append)
  also have "\<dots> = Some (year d, month d, day d, hour d, minute d, second d)"
    using v [OF b(1)] v [OF b(2)] v [OF b(3)] v [OF b(4)] v [OF b(5)] vy
    by (simp add: strftime_dmY_def strftime_HMS_def fm)
  finally show "read_timestamp (strftime_dmY d @ '' '' @ strftime_HMS d)
         = Some (year d, month d, day d, hour d, minute d, second d)" .
qed

lemma list2:
  assumes "length xs = 2"
  shows "xs = [xs ! 0, xs ! 1]"
proof -
  from assms obtain a b where "xs = [a, b]"
    by (auto simp: length_Suc_conv numeral_2_eq_2)
  then show ?thesis by simp
qed

lemma date_strftime_ok:
  "self ''date'' = Some (VDatetime d) \<Longrightarrow> date_strftime self fmt = Inr (VStr (fmt d))"
  by (simp add: date_strftime_def attr_def)

lemma csv_cell_date:
  assumes "self ''date'' = Some (VDatetime d)"
  shows "csv_cell self out ''date''
         = Inr (VStr (if ''time'' \<in> out then strftime_dmY d else strftime_full d))"
    and "csv_cell self out ''time'' = Inr (VStr (strftime_HMS d))"
  using assms by (simp_all add: csv_cell_def date_strftime_ok)

lemma csv_cell_total:
  assumes "self ''date'' = Some (VDatetime d)" and "k \<noteq> ''formatted_numer''"
  shows "\<exists>x. csv_cell self out k = Inr x"
proof (cases "k = ''date'' \<or> k = ''time''")
  case True
  then show ?thesis using csv_cell_date [where self = self, OF assms(1)] by auto
next
  case False
  then show ?thesis using assms(2)
    by (cases "getattr_none self k") (simp_all add: csv_cell_def numer_or_def)
qed

lemma csv_cells_total:
  assumes "self ''date'' = Some (VDatetime d)" and "''formatted_numer'' \<notin> set fs"
  shows "\<exists>row. csv_cells self out fs = Inr row \<and> length row = length fs
           \<and> (\<forall>i < length fs. csv_cell self out (fs ! i) = Inr (row ! i))"
  using assms(2)
proof (induction fs)
  case Nil
  then show ?case by simp
next
  case (Cons f fs)
  then obtain row where row: "csv_cells self out fs = Inr row" "length row = length fs"
    "\<forall>i < length fs. csv_cell self out (fs ! i) = Inr (row ! i)"
    by auto
  from Cons.prems have "f \<noteq> ''formatted_numer''" by auto
  from csv_cell_total [where self = self, OF assms(1) this] obtain x where x: "csv_cell self out f = Inr x" by blast
  have "\<forall>i < length (f # fs). csv_cell self out ((f # fs) ! i) = Inr ((x # row) ! i)"
    using x row(3) by (auto simp: nth_Cons')
  with x row show ?case by simp
qed

lemma csv_row_valid:
  assumes "self ''date'' = Some (VDatetime d)" and "set fs - {''time''} \<subseteq> field_names_set"
  shows "\<exists>row. csv_row self (Some fs) = Inr row \<and> length row = length fs
           \<and> (\<forall>i < length fs. csv_cell self (set fs) (fs ! i) = Inr (row ! i))"
proof -
  have "''formatted_numer'' \<notin> set fs"
    using assms(2) known_not_numer by (auto simp: field_names_set_def)
  from csv_cells_total [where self = self and out = "set fs", OF assms(1) this] assms(2) show ?thesis
    by (simp add: csv_row_def field_names_set_def)
qed

text \<open>
  Claim C3, as the code has it.  Let the timestamp of a record be a valid \<^verbatim>\<open>datetime\<close> whose
  year has four digits (1000 to 9999).  The column list \<^verbatim>\<open>["date", "time"]\<close> gives the row
  \<^verbatim>\<open>DD.MM.YYYY\<close>, \<^verbatim>\<open>HH:MM:SS\<close>, and the two cells joined by a space read back as the year,
  month, day, hour, minute and second of the timestamp.  In any valid column list, the
  cell of \<^verbatim>\<open>date\<close> is the date alone when \<^verbatim>\<open>time\<close> is also selected, and the date, a space
  and the time when it is not.
\<close>

theorem date_time_columns:
  assumes date: "self ''date'' = Some (VDatetime d)"
    and wf: "wf_datetime d" and y: "1000 \<le> year d"
  shows "csv_row self (Some [''date'', ''time''])
           = Inr [VStr (strftime_dmY d), VStr (strftime_HMS d)]
       \<and> is_DDMMYYYY (strftime_dmY d) \<and> is_HHMMSS (strftime_HMS d)
       \<and> read_timestamp (strftime_dmY d @ '' '' @ strftime_HMS d)
           = Some (year d, month d, day d, hour d, minute d, second d)
       \<and> (\<forall>fs i. set fs - {''time''} \<subseteq> field_names_set \<and> i < length fs \<and> fs ! i = ''date'' \<longrightarrow>
            (\<exists>row. csv_row self (Some fs) = Inr row \<and> length row = length fs
               \<and> row ! i = VStr (if ''time'' \<in> set fs then strftime_dmY d
                                  else strftime_dmY d @ '' '' @ strftime_HMS d)))"
proof (intro conjI allI impI)
  have sub: "set [''date'', ''time''] - {''time''} \<subseteq> field_names_set"
    by (auto simp: field_names_set_def field_names)
  from csv_row_valid [where self = self and fs = "[''date'', ''time'']", OF date sub]
  obtain row where row: "csv_row self (Some [''date'', ''time'']) = Inr row" "length row = 2"
    and cells: "\<forall>i < 2. csv_cell self (set [''date'', ''time'']) ([''date'', ''time''] ! i)
                           = Inr (row ! i)"
    by auto
  have "csv_cell self (set [''date'', ''time'']) ''date'' = Inr (row ! 0)"
    and "csv_cell self (set [''date'', ''time'']) ''time'' = Inr (row ! 1)"
    using cells [rule_format, of 0] cells [rule_format, of 1] by simp_all
  then have "row ! 0 = VStr (strftime_dmY d)" and "row ! 1 = VStr (strftime_HMS d)"
    by (simp_all add: csv_cell_date [where self = self, OF date])
  with list2 [OF row(2)] have "row = [VStr (strftime_dmY d), VStr (strftime_HMS d)]" by simp
  with row show "csv_row self (Some [''date'', ''time''])
           = Inr [VStr (strftime_dmY d), VStr (strftime_HMS d)]"
    by simp
  show "is_DDMMYYYY (strftime_dmY d)" "is_HHMMSS (strftime_HMS d)"
    "read_timestamp (strftime_dmY d @ '' '' @ strftime_HMS d)
           = Some (year d, month d, day d, hour d, minute d, second d)"
    by (rule strftime_shapes [OF wf y])+
next
  fix fs i
  assume h: "set fs - {''time''} \<subseteq> field_names_set \<and> i < length fs \<and> fs ! i = ''date''"
  from csv_row_valid [where self = self, OF date conjunct1 [OF h]] obtain row where
    row: "csv_row self (Some fs) = Inr row" "length row = length fs"
      "\<forall>i < length fs. csv_cell self (set fs) (fs ! i) = Inr (row ! i)"
    by blast
  from row(3) h have "csv_cell self (set fs) ''date'' = Inr (row ! i)" by auto
  then have "row ! i = VStr (if ''time'' \<in> set fs then strftime_dmY d
                             else strftime_dmY d @ '' '' @ strftime_HMS d)"
    by (auto simp: csv_cell_date [where self = self, OF date] strftime_full_def)
  with row show "\<exists>row. csv_row self (Some fs) = Inr row \<and> length row = length fs
               \<and> row ! i = VStr (if ''time'' \<in> set fs then strftime_dmY d
                                  else strftime_dmY d @ '' '' @ strftime_HMS d)"
    by blast
qed

text \<open>The sample record, of 5 March 2024, 12:00:00.\<close>

lemma strftime_sample:
  "strftime_dmY \<lparr>year = 2024, month = 3, day = 5, hour = 12, minute = 0, second = 0,
                  microsecond = 0, utcoffset = 3600\<rparr> = ''05.03.2024''"
  "strftime_HMS \<lparr>year = 2024, month = 3, day = 5, hour = 12, minute = 0, second = 0,
                  microsecond = 0, utcoffset = 3600\<rparr> = ''12:00:00''"
  by (simp_all add: strftime_dmY_def strftime_HMS_def fmt_0d_def rjust_def str_nat.simps
        digit_char_def)

theorem date_time_columns_witness:
  "csv_row sample_call (Some [''date'', ''time'']) = Inr [VStr ''05.03.2024'', VStr ''12:00:00'']
   \<and> read_timestamp ''05.03.2024 12:00:00'' = Some (2024, 3, 5, 12, 0, 0)
   \<and> (\<exists>row. csv_row sample_call (Some [''number'', ''date'']) = Inr row
         \<and> row ! 1 = VStr ''05.03.2024 12:00:00'')"
proof -
  let ?d = "\<lparr>year = 2024, month = 3, day = 5, hour = 12, minute = 0, second = 0,
              microsecond = 0, utcoffset = 3600\<rparr>"
  have date: "sample_call ''date'' = Some (VDatetime ?d)" by (simp add: sample_call_def)
  have wf: "wf_datetime ?d" by (simp add: wf_datetime_def days_in_month_def)
  have y: "1000 \<le> year ?d" by simp
  note th = date_time_columns [where self = sample_call, OF date wf y]
  have fs: "set [''number'', ''date''] - {''time''} \<subseteq> field_names_set
            \<and> 1 < length [''number'', ''date''] \<and> [''number'', ''date''] ! 1 = ''date''"
    by (auto simp: field_names_set_def field_names)
  have nt: "''time'' \<notin> set [''number'', ''date'']" by simp
  from th fs obtain row where "csv_row sample_call (Some [''number'', ''date'']) = Inr row"
    and "row ! 1 = VStr (if ''time'' \<in> set [''number'', ''date''] then strftime_dmY ?d
                        else strftime_dmY ?d @ '' '' @ strftime_HMS ?d)"
    by blast
  then have "\<exists>row. csv_row sample_call (Some [''number'', ''date'']) = Inr row
         \<and> row ! 1 = VStr ''05.03.2024 12:00:00''"
    by (simp add: strftime_sample)
  moreover from th have "csv_row sample_call (Some [''date'', ''time''])
      = Inr [VStr ''05.03.2024'', VStr ''12:00:00'']"
    and "read_timestamp ''05.03.2024 12:00:00'' = Some (2024, 3, 5, 12, 0, 0)"
    by (simp_all add: strftime_sample)
  ultimately show ?thesis by blast
qed

text \<open>
  A record of the year 999: the timestamp is valid, the cell of \<^verbatim>\<open>date\<close> is \<^verbatim>\<open>15.06.999\<close>,
  which is not of the shape \<^verbatim>\<open>DD.MM.YYYY\<close>, and the two cells do not read back.
\<close>

theorem short_year_counterexample:
  "wf_datetime \<lparr>year = 999, month = 6, day = 15, hour = 12, minute = 0, second = 0,
                 microsecond = 0, utcoffset = 3900\<rparr>
   \<and> csv_row (sample_call(''date'' \<mapsto> VDatetime \<lparr>year = 999, month = 6, day = 15, hour = 12,
                   minute = 0, second = 0, microsecond = 0, utcoffset = 3900\<rparr>))
         (Some [''date'', ''time'']) = Inr [VStr ''15.06.999'', VStr ''12:00:00'']
   \<and> \<not> is_DDMMYYYY ''15.06.999''
   \<and> read_timestamp ''15.06.999 12:00:00'' = None"
proof -
  let ?d = "\<lparr>year = 999, month = 6, day = 15, hour = 12, minute = 0, second = 0,
              microsecond = 0, utcoffset = 3900\<rparr>"
  have a: "wf_datetime ?d" by (simp add: wf_datetime_def days_in_month_def)
  have s: "strftime_dmY ?d = ''15.06.999''" "strftime_HMS ?d = ''12:00:00''"
    by (simp_all add: strftime_dmY_def strftime_HMS_def fmt_0d_def rjust_def str_nat.simps
          digit_char_def)
  have sub: "set [''date'', ''time''] - {''time''} \<subseteq> field_names_set"
    by (auto simp: field_names_set_def field_names)
  have date: "(sample_call(''date'' \<mapsto> VDatetime ?d)) ''date'' = Some (VDatetime ?d)" by simp
  from csv_row_valid [where self = "sample_call(''date'' \<mapsto> VDatetime ?d)"
      and fs = "[''date'', ''time'']", OF date sub]
  obtain row where
    row: "csv_row (sample_call(''date'' \<mapsto> VDatetime ?d)) (Some [''date'', ''time'']) = Inr row"
      "length row = 2"
    and cells: "\<forall>i < 2. csv_cell (sample_call(''date'' \<mapsto> VDatetime ?d))
                  (set [''date'', ''time'']) ([''date'', ''time''] ! i) = Inr (row ! i)"
    by auto
  have "csv_cell (sample_call(''date'' \<mapsto> VDatetime ?d)) (set [''date'', ''time'']) ''date''
        = Inr (row ! 0)"
    and "csv_cell (sample_call(''date'' \<mapsto> VDatetime ?d)) (set [''date'', ''time'']) ''time''
        = Inr (row ! 1)"
    using cells [rule_format, of 0] cells [rule_format, of 1] by simp_all
  then have "row ! 0 = VStr ''15.06.999''" and "row ! 1 = VStr ''12:00:00''"
    by (simp_all add: csv_cell_date [where self = "sample_call(''date'' \<mapsto> VDatetime ?d)", OF date] s)
  with list2 [OF row(2)] have "row = [VStr ''15.06.999'', VStr ''12:00:00'']" by simp
  with row have b: "csv_row (sample_call(''date'' \<mapsto> VDatetime ?d)) (Some [''date'', ''time''])
                    = Inr [VStr ''15.06.999'', VStr ''12:00:00'']" by simp
  have c: "\<not> is_DDMMYYYY ''15.06.999''" by (simp add: is_DDMMYYYY_def)
  have d: "read_timestamp ''15.06.999 12:00:00'' = None" by (simp add: read_timestamp_def)
  from a b c d show ?thesis by simp
qed

section \<open>The date range of \<^verbatim>\<open>convert_to_csv\<close>\<close>

text \<open>
  The loop over the decoded records stops at the first record that is older than the start
  bound and passes over every record at or after the stop bound; the rows written are the
  header and the rows of the records that remain.
\<close>

lemma csv_row_default:
  assumes "self ''date'' = Some (VDatetime d)"
  shows "csv_row self None = Inr (default_row self)"
proof -
  have sub: "set default_csv_fields - {''time''} \<subseteq> field_names_set"
    by (auto simp: default_csv_fields_def field_names_set_def field_names)
  have "csv_row self None = csv_row self (Some default_csv_fields)"
    by (simp add: csv_row_def)
  with csv_row_valid [where self = self, OF assms sub] show ?thesis
    by (auto simp: default_row_def)
qed

lemma date_cmp_date:
  "self ''date'' = Some (VDatetime d) \<Longrightarrow> date_cmp cmp self s = Inr (cmp d s)"
  by (simp add: date_cmp_def attr_def)

lemma write_rows_filter:
  assumes "\<forall>c \<in> set cs. \<exists>d. c ''date'' = Some (VDatetime d)"
  shows "write_rows start stop cs rows =
           (None, rows @ map default_row
                           (filter (\<lambda>c. \<not> past_stop stop c)
                              (takeWhile (\<lambda>c. \<not> before_start start c) cs)))"
  using assms
proof (induction cs arbitrary: rows)
  case Nil
  then show ?case by simp
next
  case (Cons c cs)
  then obtain d where d: "c ''date'' = Some (VDatetime d)" by auto
  from Cons.prems have rest: "\<forall>c \<in> set cs. \<exists>d. c ''date'' = Some (VDatetime d)" by simp
  note ih = Cons.IH [OF rest]
  have row: "csv_row c None = Inr (default_row c)" using d by (rule csv_row_default)
  have lt: "\<And>s. date_cmp dt_lt c s = Inr (dt_lt d s)"
    and ge: "\<And>s. date_cmp dt_ge c s = Inr (dt_ge d s)"
    using d by (simp_all add: date_cmp_date)
  have step: "write_rows start stop (c # cs) rows =
                (if before_start start c then (None, rows)
                 else if past_stop stop c then write_rows start stop cs rows
                 else write_rows start stop cs (rows @ [default_row c]))"
    by (cases start; cases stop) (simp_all add: before_start_def past_stop_def lt ge row)
  show ?case
    unfolding step by (simp add: ih)
qed

lemma decoded_date:
  assumes "decode_fields tz pos PhoneCall_fields obj Map.empty out = (Inr call, obj', out')"
  shows "\<exists>d. PhoneCall_init call ''date'' = Some (VDatetime d)"
proof -
  have f: "fld ''date'' TDatetime \<in> set PhoneCall_fields" by (simp add: PhoneCall_fields_def)
  from decoded_attribute [OF assms f]
  obtain v x where "decode_value tz TDatetime v = Inr x"
    and "PhoneCall_init call ''date'' = Some x"
    by (auto simp: fld_def split: option.splits)
  then show ?thesis
    by (auto simp: decode_value_def split: sum.splits)
qed

lemma from_json_many_dates:
  assumes "from_json tz (JMany objs) = (Inr (Many cs), objs', out)"
  shows "\<forall>c \<in> set cs. \<exists>d. c ''date'' = Some (VDatetime d)"
proof -
  from assms have "decode_all tz True objs [] [] = (Inr cs, objs', out)"
    by (auto split: prod.splits sum.splits)
  from decode_all_Inr [OF this] obtain new where
    cs: "cs = new" "length new = length objs"
    and each: "\<forall>i < length objs. \<exists>pos call o' out''.
                 decode_fields tz pos PhoneCall_fields (objs ! i) Map.empty [] = (Inr call, o', out'')
                 \<and> new ! i = PhoneCall_init call"
    by auto
  show ?thesis
  proof
    fix c assume "c \<in> set cs"
    then obtain i where i: "i < length objs" "c = new ! i"
      using cs by (auto simp: in_set_conv_nth)
    with each obtain pos call o' out'' where
      "decode_fields tz pos PhoneCall_fields (objs ! i) Map.empty [] = (Inr call, o', out'')"
      and "c = PhoneCall_init call"
      by auto
    then show "\<exists>d. c ''date'' = Some (VDatetime d)" using decoded_date by blast
  qed
qed

lemma convert_to_csv_many:
  assumes dec: "from_json tz (JMany objs) = (Inr (Many cs), objs', out)"
    and stp: "stop_bound off stop_date = Inr stop"
  shows "convert_to_csv tz off (JMany objs) start_date stop_date =
           (None,
            map VStr (csv_header None)
              # map default_row
                  (filter (\<lambda>c. \<not> past_stop stop c)
                     (takeWhile (\<lambda>c. \<not> before_start (start_bound off start_date) c) cs)),
            out)"
proof -
  have sb: "(case map_option (combine off) stop_date of
               None \<Rightarrow> Inr None
             | Some d \<Rightarrow> (case add_one_day d of Inl e \<Rightarrow> Inl e | Inr d' \<Rightarrow> Inr (Some d')))
            = Inr stop"
    using stp by (cases stop_date) (simp_all add: stop_bound_def)
  note w = write_rows_filter [OF from_json_many_dates [OF dec],
      of "start_bound off start_date" stop "[map VStr (csv_header None)]"]
  show ?thesis
    unfolding convert_to_csv_def Let_def sb
    using dec w by (simp add: start_bound_def)
qed

lemma late_obj_ok:
  "list_all (field_ok sample_to_local (sample_obj(''date'' \<mapsto> JStr ''1709506799000'')))
     PhoneCall_fields"
  by (simp add: eval_field sample_obj_def)

lemma late_date:
  "decode_value sample_to_local TDatetime (JStr ''1709506799000'')
     = Inr (VDatetime \<lparr>year = 2024, month = 3, day = 3, hour = 23, minute = 59, second = 59,
                       microsecond = 0, utcoffset = 3600\<rparr>)"
  by (simp add: eval_field)

lemma late_call:
  obtains c objs' out where
    "from_json sample_to_local (JMany [sample_obj(''date'' \<mapsto> JStr ''1709506799000'')])
       = (Inr (Many [c]), objs', out)"
    and "out = []"
    and "c ''date'' = Some (VDatetime \<lparr>year = 2024, month = 3, day = 3, hour = 23, minute = 59,
                                       second = 59, microsecond = 0, utcoffset = 3600\<rparr>)"
proof -
  let ?obj = "sample_obj(''date'' \<mapsto> JStr ''1709506799000'')"
  have "\<exists>r. fst (from_json sample_to_local (JMany [?obj])) = Inr r"
    unfolding from_json_succeeds_iff using late_obj_ok by simp
  then obtain r objs' out where ok: "from_json sample_to_local (JMany [?obj]) = (Inr r, objs', out)"
    by (metis prod.collapse)
  from from_json_result_kind [OF ok] obtain cs where r: "r = Many cs" by auto
  from ok r have da: "decode_all sample_to_local True [?obj] [] [] = (Inr cs, objs', out)"
    by (auto split: prod.splits sum.splits)
  from decode_all_Inr [OF da] obtain new where out: "out = []" and cs: "cs = new"
    and len: "length new = 1"
    and each: "\<forall>i < length [?obj]. \<exists>pos call o' out''.
                 decode_fields sample_to_local pos PhoneCall_fields ([?obj] ! i) Map.empty []
                   = (Inr call, o', out'')
                 \<and> new ! i = PhoneCall_init call"
    by auto
  from each obtain pos call o' out'' where
    d: "decode_fields sample_to_local pos PhoneCall_fields ?obj Map.empty [] = (Inr call, o', out'')"
    and n0: "new ! 0 = PhoneCall_init call"
    by force
  have f: "fld ''date'' TDatetime \<in> set PhoneCall_fields" by (simp add: PhoneCall_fields_def)
  from decoded_attribute [OF d f] late_date
  have "PhoneCall_init call ''date''
        = Some (VDatetime \<lparr>year = 2024, month = 3, day = 3, hour = 23, minute = 59,
                            second = 59, microsecond = 0, utcoffset = 3600\<rparr>)"
    by (simp add: fld_def)
  moreover from len have "new = [new ! 0]" by (cases new) auto
  ultimately show ?thesis using that ok r cs out n0 by metis
qed

text \<open>
  Claim C2, at a concrete input.  The bounds are built with \<^verbatim>\<open>tzinfo=tz\<close>; the zone object
  of Europe/Vienna attached in this way reports its first offset, +01:05 (3900 seconds),
  while a decoded timestamp carries the offset in force at its instant (+01:00 in March).
  The call below is of 3 March 2024, 23:59:59 local time.  With the stop date 3 March it
  is passed over, and only the header is written: the stop bound, midnight of 4 March at
  +01:05, is 23:55 local time of 3 March.  With the start date 4 March the call is
  written: two rows, the header and the call.
\<close>

theorem stop_day_last_minutes_dropped:
  "decode_value sample_to_local TDatetime (JStr ''1709506799000'')
     = Inr (VDatetime \<lparr>year = 2024, month = 3, day = 3, hour = 23, minute = 59, second = 59,
                       microsecond = 0, utcoffset = 3600\<rparr>)
   \<and> convert_to_csv sample_to_local 3900
        (JMany [sample_obj(''date'' \<mapsto> JStr ''1709506799000'')]) None (Some (ADate 2024 3 3))
       = (None, [map VStr (csv_header None)], [])
   \<and> length (fst (snd (convert_to_csv sample_to_local 3900
        (JMany [sample_obj(''date'' \<mapsto> JStr ''1709506799000'')]) (Some (ADate 2024 3 4)) None)))
       = 2"
proof -
  let ?d = "\<lparr>year = 2024, month = 3, day = 3, hour = 23, minute = 59, second = 59,
              microsecond = 0, utcoffset = 3600\<rparr>"
  let ?b = "\<lparr>year = 2024, month = 3, day = 4, hour = 0, minute = 0, second = 0,
              microsecond = 0, utcoffset = 3900\<rparr>"
  obtain c objs' out where
    ok: "from_json sample_to_local (JMany [sample_obj(''date'' \<mapsto> JStr ''1709506799000'')])
         = (Inr (Many [c]), objs', out)"
    and out: "out = []" and date: "c ''date'' = Some (VDatetime ?d)"
    by (rule late_call)
  have stop: "stop_bound 3900 (Some (ADate 2024 3 3)) = Inr (Some ?b)"
    by (simp add: stop_bound_def add_one_day_def days_in_month_def)
  have none: "stop_bound 3900 None = Inr None" by (simp add: stop_bound_def)
  have start: "start_bound 3900 (Some (ADate 2024 3 4)) = Some ?b"
    by (simp add: start_bound_def)
  have i1: "dt_instant ?d = 63845189999000000" and i2: "dt_instant ?b = 63845189700000000"
    by (simp_all add: dt_instant_def ymd2ord_def days_before_year_def days_before_month_def
          is_leap_def)
  have past: "past_stop (Some ?b) c"
    by (simp add: past_stop_def date_cmp_date [where self = c, OF date] dt_ge_def i1 i2)
  have notbefore: "\<not> before_start (Some ?b) c"
    by (simp add: before_start_def date_cmp_date [where self = c, OF date] dt_lt_def i1 i2)
  have a: "convert_to_csv sample_to_local 3900
        (JMany [sample_obj(''date'' \<mapsto> JStr ''1709506799000'')]) None (Some (ADate 2024 3 3))
       = (None, [map VStr (csv_header None)], [])"
    using convert_to_csv_many [OF ok stop, of None] past out
    by (simp add: start_bound_def before_start_def)
  have b: "length (fst (snd (convert_to_csv sample_to_local 3900
        (JMany [sample_obj(''date'' \<mapsto> JStr ''1709506799000'')]) (Some (ADate 2024 3 4)) None)))
       = 2"
    using convert_to_csv_many [OF ok none, of "Some (ADate 2024 3 4)"] notbefore
    by (simp add: start past_stop_def)
  from late_date a b show ?thesis by simp
qed

section \<open>Durations\<close>

lemma timedelta_seconds_day:
  "0 \<le> n \<Longrightarrow> n < 86400 \<Longrightarrow>
     timedelta_seconds n = Inr \<lparr>days = 0, seconds = n, microseconds = 0\<rparr>"
  by (simp add: timedelta_seconds_def)

lemma rjust_hours:
  assumes "h < 24" "m < 60" "s < 60"
  shows "rjust 8 CHR ''0'' (str_nat h @ '':'' @ fmt_0d 2 (int m) @ '':'' @ fmt_0d 2 (int s))
         = fmt_0d 2 (int h) @ '':'' @ fmt_0d 2 (int m) @ '':'' @ fmt_0d 2 (int s)"
proof (cases "h < 10")
  case True
  with assms show ?thesis
    by (simp add: rjust_def str_nat_lt10 fmt_0d_2 digit_char_def)
next
  case False
  with assms show ?thesis
    by (simp add: rjust_def str_nat_lt100 fmt_0d_2)
qed

lemma str_timedelta_day:
  assumes "0 \<le> n" "n < 86400"
  shows "rjust 8 CHR ''0'' (str_timedelta \<lparr>days = 0, seconds = n, microseconds = 0\<rparr>) = hhmmss n"
proof -
  obtain k where k: "n = int k" using assms(1) nonneg_int_cases by blast
  with assms have kb: "k < 86400" by simp
  have h: "k div 60 div 60 < 24" and m: "k div 60 mod 60 < 60" and s: "k mod 60 < 60"
    using kb by auto
  have d: "int k div 3600 = int k div 60 div 60" by (simp add: zdiv_zmult2_eq)
  have "str_timedelta \<lparr>days = 0, seconds = n, microseconds = 0\<rparr>
        = str_nat (k div 60 div 60) @ '':'' @ fmt_0d 2 (int (k div 60 mod 60)) @ '':''
          @ fmt_0d 2 (int (k mod 60))"
    unfolding str_timedelta_def k
    by (simp add: Let_def str_int_nat zdiv_int zmod_int flip: str_int_nat)
  then show ?thesis
    using rjust_hours [OF h m s]
    by (simp add: hhmmss_def k d zdiv_int zmod_int)
qed

lemma is_HHMMSS_hhmmss:
  assumes "0 \<le> n" "n < 86400"
  shows "is_HHMMSS (hhmmss n)"
proof -
  obtain k where k: "n = int k" using assms(1) nonneg_int_cases by blast
  with assms have kb: "k < 86400" by simp
  have h: "k div 3600 < 100" and m: "k div 60 mod 60 < 100" and s: "k mod 60 < 100"
    using kb by auto
  have digs: "\<And>j. j < 100 \<Longrightarrow> is_digit (digit_char (j div 10)) \<and> is_digit (digit_char (j mod 10))"
    by (simp add: is_digit_digit_char)
  have "hhmmss n = fmt_0d 2 (int (k div 3600)) @ '':'' @ fmt_0d 2 (int (k div 60 mod 60)) @ '':''
                   @ fmt_0d 2 (int (k mod 60))"
    by (simp add: hhmmss_def k zdiv_int zmod_int)
  then show ?thesis
    using digs [OF h] digs [OF m] digs [OF s]
    by (simp add: is_HHMMSS_def fmt_0d_2 [OF h] fmt_0d_2 [OF m] fmt_0d_2 [OF s])
qed

lemma str_int_nonempty: "str_int n \<noteq> []"
  using str_nat_digits by (simp add: str_int_def)

lemma str_timedelta_days:
  assumes "86400 \<le> n"
  shows "str_timedelta \<lparr>days = n div 86400, seconds = n mod 86400, microseconds = 0\<rparr>
         = days_hmmss n"
    and "8 \<le> length (days_hmmss n)" and "\<not> is_HHMMSS (days_hmmss n)"
proof -
  have d: "0 < n div 86400" using assms by (simp add: pos_imp_zdiv_pos_iff)
  have m: "n mod 86400 mod 60 = n mod 60" by (simp add: mod_mod_cancel)
  have h: "n mod 86400 div 60 div 60 = n mod 86400 div 3600" by (simp add: zdiv_zmult2_eq)
  show "str_timedelta \<lparr>days = n div 86400, seconds = n mod 86400, microseconds = 0\<rparr>
         = days_hmmss n"
    using d by (auto simp: str_timedelta_def days_hmmss_def Let_def m h)
  obtain k where k: "n mod 86400 = int k"
    using nonneg_int_cases [of "n mod 86400"] by auto
  then have kb: "k < 86400"
    using pos_mod_bound [of 86400 n] by linarith
  have mm: "k div 60 mod 60 < 100" and ss: "k mod 60 < 100" by auto
  have "fmt_0d 2 (n mod 86400 div 60 mod 60) = fmt_0d 2 (int (k div 60 mod 60))"
    and "fmt_0d 2 (n mod 60) = fmt_0d 2 (int (k mod 60))"
    using m by (simp_all add: k zdiv_int zmod_int)
  then have l: "length (fmt_0d 2 (n mod 86400 div 60 mod 60)) = 2"
    "length (fmt_0d 2 (n mod 60)) = 2"
    by (simp_all add: fmt_0d_2 [OF mm] fmt_0d_2 [OF ss])
  have "14 \<le> length (days_hmmss n)"
    using str_int_nonempty [of "n div 86400"] str_int_nonempty [of "n mod 86400 div 3600"] l
    by (cases "str_int (n div 86400)"; cases "str_int (n mod 86400 div 3600)")
       (simp_all add: days_hmmss_def)
  then show "8 \<le> length (days_hmmss n)" and "\<not> is_HHMMSS (days_hmmss n)"
    by (simp_all add: is_HHMMSS_def)
qed

text \<open>
  Claim C4, as the code has it.  A duration of \<open>n\<close> seconds with \<open>0 \<le> n < 86400\<close> is
  rendered in the column \<^verbatim>\<open>duration\<close> as \<^verbatim>\<open>HH:MM:SS\<close>, two digits each: exactly eight
  characters, the hour zero-padded by \<^verbatim>\<open>rjust(8, '0')\<close>.  From one day on, the cell is
  the number of whole days, the word \<^verbatim>\<open>day\<close> or \<^verbatim>\<open>days\<close>, a comma and the rest as
  \<^verbatim>\<open>H:MM:SS\<close>; it is not of the shape \<^verbatim>\<open>HH:MM:SS\<close>.
\<close>

theorem duration_rendering:
  assumes "0 \<le> n"
    and "timedelta_seconds n = Inr td"
    and "self ''duration'' = Some (VTimedelta td)"
  shows "(n < 86400 \<longrightarrow>
            csv_row self (Some [''duration'']) = Inr [VStr (hhmmss n)] \<and> is_HHMMSS (hhmmss n))
       \<and> (86400 \<le> n \<longrightarrow>
            csv_row self (Some [''duration'']) = Inr [VStr (days_hmmss n)]
            \<and> \<not> is_HHMMSS (days_hmmss n))"
proof -
  have "''duration'' \<in> set (map f_name PhoneCall_fields)"
    by (simp add: field_names)
  then have "csv_row self (Some [''duration'']) = csv_cells self {''duration''} [''duration'']"
    by (rule csv_row_single)
  also have "\<dots> = Inr [VStr (rjust 8 CHR ''0'' (str_timedelta td))]"
    using assms(3) by (simp add: csv_cell_def getattr_none_def)
  finally have row: "csv_row self (Some [''duration''])
                     = Inr [VStr (rjust 8 CHR ''0'' (str_timedelta td))]" .
  show ?thesis
  proof (intro conjI impI)
    assume less: "n < 86400"
    have td: "td = \<lparr>days = 0, seconds = n, microseconds = 0\<rparr>"
      using assms(1,2) less by (simp add: timedelta_seconds_day)
    show "csv_row self (Some [''duration'']) = Inr [VStr (hhmmss n)]"
      using row str_timedelta_day [OF assms(1) less] td by simp
    show "is_HHMMSS (hhmmss n)" using assms(1) less by (rule is_HHMMSS_hhmmss)
  next
    assume more: "86400 \<le> n"
    have td: "td = \<lparr>days = n div 86400, seconds = n mod 86400, microseconds = 0\<rparr>"
      using assms(2) by (auto simp: timedelta_seconds_def Let_def split: if_splits)
    note s = str_timedelta_days [OF more]
    have "rjust 8 CHR ''0'' (days_hmmss n) = days_hmmss n"
      using s(2) by (simp add: rjust_def)
    then show "csv_row self (Some [''duration'']) = Inr [VStr (days_hmmss n)]"
      using row td s(1) by simp
    show "\<not> is_HHMMSS (days_hmmss n)" by (rule s(3))
  qed
qed

text \<open>The two durations named by the specification, 3661 seconds and 0 seconds, and a
  duration of 200000 seconds.\<close>

theorem duration_rendering_witness:
  "csv_row sample_call (Some [''duration'']) = Inr [VStr ''01:01:01'']
   \<and> is_HHMMSS ''01:01:01''
   \<and> csv_row (sample_call(''duration'' \<mapsto> VTimedelta \<lparr>days = 0, seconds = 0, microseconds = 0\<rparr>))
        (Some [''duration'']) = Inr [VStr ''00:00:00'']
   \<and> csv_row (sample_call(''duration'' \<mapsto> VTimedelta \<lparr>days = 2, seconds = 27200, microseconds = 0\<rparr>))
        (Some [''duration'']) = Inr [VStr ''2 days, 7:33:20'']
   \<and> \<not> is_HHMMSS ''2 days, 7:33:20''"
proof -
  have a: "timedelta_seconds 3661 = Inr \<lparr>days = 0, seconds = 3661, microseconds = 0\<rparr>"
    and b: "timedelta_seconds 0 = Inr \<lparr>days = 0, seconds = 0, microseconds = 0\<rparr>"
    and c2: "timedelta_seconds 200000 = Inr \<lparr>days = 2, seconds = 27200, microseconds = 0\<rparr>"
    by (simp_all add: timedelta_seconds_def)
  have c: "sample_call ''duration'' = Some (VTimedelta \<lparr>days = 0, seconds = 3661, microseconds = 0\<rparr>)"
    by (simp add: sample_call_def)
  have d: "(sample_call(''duration'' \<mapsto> VTimedelta \<lparr>days = 0, seconds = 0, microseconds = 0\<rparr>))
             ''duration'' = Some (VTimedelta \<lparr>days = 0, seconds = 0, microseconds = 0\<rparr>)"
    and d2: "(sample_call(''duration'' \<mapsto> VTimedelta \<lparr>days = 2, seconds = 27200, microseconds = 0\<rparr>))
             ''duration'' = Some (VTimedelta \<lparr>days = 2, seconds = 27200, microseconds = 0\<rparr>)"
    by simp_all
  have e: "hhmmss 3661 = ''01:01:01''" and f: "hhmmss 0 = ''00:00:00''"
    by (simp_all add: hhmmss_def fmt_0d_def rjust_def str_nat.simps digit_char_def)
  have g: "days_hmmss 200000 = ''2 days, 7:33:20''"
    by (simp add: days_hmmss_def str_int_def fmt_0d_def rjust_def str_nat.simps digit_char_def)
  show ?thesis
    using duration_rendering [where n = 3661 and self = sample_call, OF _ a c]
      duration_rendering [where n = 0
        and self = "sample_call(''duration'' \<mapsto> VTimedelta \<lparr>days = 0, seconds = 0, microseconds = 0\<rparr>)",
        OF _ b d]
      duration_rendering [where n = 200000
        and self = "sample_call(''duration'' \<mapsto> VTimedelta \<lparr>days = 2, seconds = 27200, microseconds = 0\<rparr>)",
        OF _ c2 d2]
    by (simp add: e f g)
qed

text \<open>
  A call of exactly one day: the raw value \<^verbatim>\<open>"86400"\<close> decodes to a \<^verbatim>\<open>timedelta\<close> of one
  day, and its cell is \<^verbatim>\<open>1 day, 0:00:00\<close>, which is not of the shape \<^verbatim>\<open>HH:MM:SS\<close>.
\<close>

theorem duration_one_day_counterexample:
  "decode_value sample_to_local TTimedelta (JStr ''86400'')
     = Inr (VTimedelta \<lparr>days = 1, seconds = 0, microseconds = 0\<rparr>)
   \<and> csv_row (sample_call(''duration'' \<mapsto> VTimedelta \<lparr>days = 1, seconds = 0, microseconds = 0\<rparr>))
        (Some [''duration'']) = Inr [VStr ''1 day, 0:00:00'']
   \<and> \<not> is_HHMMSS ''1 day, 0:00:00''"
proof -
  have a: "decode_value sample_to_local TTimedelta (JStr ''86400'')
             = Inr (VTimedelta \<lparr>days = 1, seconds = 0, microseconds = 0\<rparr>)"
    by (simp add: decode_value_def int_of_str_def is_digit_or_underscore_def strip_def is_space_def is_digit_def
          digit_val_def timedelta_seconds_def)
  have b: "csv_row (sample_call(''duration'' \<mapsto> VTimedelta \<lparr>days = 1, seconds = 0, microseconds = 0\<rparr>))
             (Some [''duration'']) = Inr [VStr ''1 day, 0:00:00'']"
    by (simp add: csv_row_def field_names csv_cell_def getattr_none_def str_timedelta_def
          rjust_def str_int_def str_nat.simps digit_char_def fmt_0d_def)
  have c: "\<not> is_HHMMSS ''1 day, 0:00:00''"
    by (simp add: is_HHMMSS_def)
  from a b c show ?thesis by simp
qed

section \<open>Boolean fields\<close>

lemma bool_field_names:
  "f \<in> set PhoneCall_fields \<Longrightarrow> f_type f = TBool \<Longrightarrow>
     f_name f \<in> {''phone_account_hidden'', ''is_read'', ''new'', ''add_for_all_users'',
                  ''is_call_log_phone_account_migration_pending'', ''transcription_state''}"
  by (auto simp: PhoneCall_fields_def fld_def fld_d_def)

lemma decode_bool:
  "decode_value tz TBool (JStr s) = Inr (VBool (s = ''1''))"
  "decode_value tz TBool (JBool b) = Inr (VBool b)"
  by (simp_all add: decode_value_def is_enum_def)

text \<open>
  Claim C5.  For a field declared \<^verbatim>\<open>bool\<close>, the raw string \<^verbatim>\<open>"1"\<close> decodes to true and
  every other raw string to false, a raw boolean is kept as it is, and the decoded boolean
  is rendered as \<^verbatim>\<open>Yes\<close> when true and \<^verbatim>\<open>No\<close> when false.
\<close>

theorem boolean_fields:
  assumes ok: "from_json tz (JOne obj) = (Inr (One c), objs', out)"
    and f: "f \<in> set PhoneCall_fields" and t: "f_type f = TBool"
    and raw: "obj (f_name f) = Some raw"
  shows "(\<forall>s. raw = JStr s \<longrightarrow>
            c (f_name f) = Some (VBool (s = ''1''))
            \<and> csv_row c (Some [f_name f]) = Inr [VStr (if s = ''1'' then ''Yes'' else ''No'')])
       \<and> (\<forall>b. raw = JBool b \<longrightarrow>
            c (f_name f) = Some (VBool b)
            \<and> csv_row c (Some [f_name f]) = Inr [VStr (if b then ''Yes'' else ''No'')])"
proof -
  from from_json_one_attribute [OF ok f] raw t
  obtain x where x: "decode_value tz TBool raw = Inr x" and c: "c (f_name f) = Some x"
    by auto
  have k: "f_name f \<in> set (map f_name PhoneCall_fields)" using f by simp
  have nd: "f_name f \<noteq> ''date''" using bool_field_names [OF f t] by auto
  have row: "\<And>b. x = VBool b \<Longrightarrow>
               csv_row c (Some [f_name f]) = Inr [VStr (if b then ''Yes'' else ''No'')]"
    using csv_row_plain_column [where self = c, OF k nd c] by simp
  show ?thesis
  proof (intro conjI allI impI)
    fix s assume "raw = JStr s"
    with x have xs: "x = VBool (s = ''1'')" by (simp add: decode_bool)
    show "c (f_name f) = Some (VBool (s = ''1''))" using c xs by simp
    show "csv_row c (Some [f_name f]) = Inr [VStr (if s = ''1'' then ''Yes'' else ''No'')]"
      using row [OF xs] .
  next
    fix b assume "raw = JBool b"
    with x have xb: "x = VBool b" by (simp add: decode_bool)
    show "c (f_name f) = Some (VBool b)" using c xb by simp
    show "csv_row c (Some [f_name f]) = Inr [VStr (if b then ''Yes'' else ''No'')]"
      using row [OF xb] .
  qed
qed

text \<open>In the sample dictionary \<^verbatim>\<open>is_read\<close> is \<^verbatim>\<open>"1"\<close> and \<^verbatim>\<open>phone_account_hidden\<close> is
  \<^verbatim>\<open>"0"\<close>.\<close>

theorem boolean_fields_witness:
  "\<exists>c objs' out. from_json sample_to_local (JOne sample_obj) = (Inr (One c), objs', out)
     \<and> c ''is_read'' = Some (VBool True)
     \<and> csv_row c (Some [''is_read'']) = Inr [VStr ''Yes'']
     \<and> c ''phone_account_hidden'' = Some (VBool False)
     \<and> csv_row c (Some [''phone_account_hidden'']) = Inr [VStr ''No'']"
proof -
  have "list_all (field_ok sample_to_local sample_obj) PhoneCall_fields"
    by (rule sample_obj_ok)
  then obtain c objs' out where
    ok: "from_json sample_to_local (JOne sample_obj) = (Inr (One c), objs', out)"
    using from_json_one_succeeds_iff by blast
  have f1: "fld ''is_read'' TBool \<in> set PhoneCall_fields"
    and f2: "fld ''phone_account_hidden'' TBool \<in> set PhoneCall_fields"
    by (simp_all add: PhoneCall_fields_def)
  have t1: "f_type (fld ''is_read'' TBool) = TBool"
    and t2: "f_type (fld ''phone_account_hidden'' TBool) = TBool"
    by (simp_all add: fld_def)
  have r1: "sample_obj (f_name (fld ''is_read'' TBool)) = Some (JStr ''1'')"
    and r2: "sample_obj (f_name (fld ''phone_account_hidden'' TBool)) = Some (JStr ''0'')"
    by (simp_all add: fld_def sample_obj_def)
  from boolean_fields [OF ok f1 t1 r1] boolean_fields [OF ok f2 t2 r2]
  have "c ''is_read'' = Some (VBool True) \<and> csv_row c (Some [''is_read'']) = Inr [VStr ''Yes'']
      \<and> c ''phone_account_hidden'' = Some (VBool False)
      \<and> csv_row c (Some [''phone_account_hidden'']) = Inr [VStr ''No'']"
    by (simp add: fld_def)
  with ok show ?thesis by blast
qed

section \<open>Unknown columns\<close>

text \<open>
  Claim C6.  When the column list holds a name that is neither a field of the record (the
  field \<^verbatim>\<open>date\<close> included) nor the pseudo-column \<^verbatim>\<open>time\<close>, \<^verbatim>\<open>csv_row\<close> raises a
  \<^verbatim>\<open>ValueError\<close> that lists the unknown names, that name among them; the check comes before
  the first cell, so no row is returned.
\<close>

theorem unknown_column_rejected:
  assumes "k \<in> set fs" and "k \<notin> field_names_set" and "k \<noteq> ''time''"
  shows "csv_row self (Some fs) = Inl (UnknownFields (set fs - {''time''} - field_names_set))
       \<and> k \<in> set fs - {''time''} - field_names_set
       \<and> class_of (UnknownFields (set fs - {''time''} - field_names_set)) = ClsValueError"
proof -
  have "\<not> (set fs - {''time''} \<subseteq> set (map f_name PhoneCall_fields))"
    using assms by (auto simp: field_names_set_def)
  then show ?thesis
    using assms by (simp add: csv_row_def Let_def field_names_set_def)
qed

text \<open>A misspelt column among valid ones.\<close>

theorem unknown_column_rejected_witness:
  "csv_row sample_call (Some [''date'', ''nam'', ''time'', ''number''])
     = Inl (UnknownFields {''nam''})"
proof -
  have a: "''nam'' \<in> set [''date'', ''nam'', ''time'', ''number'']" by simp
  have b: "''nam'' \<notin> field_names_set" by (simp add: field_names_set_def field_names)
  have c: "''nam'' \<noteq> ''time''" by simp
  have "set [''date'', ''nam'', ''time'', ''number''] - {''time''} - field_names_set = {''nam''}"
    by (auto simp: field_names_set_def field_names)
  with unknown_column_rejected [where self = sample_call, OF a b c] show ?thesis by simp
qed

section \<open>Two flags at once\<close>

lemma MissedReason_mask: "flag_mask MissedReason_bit MissedReason_members = 8323079"
  by (simp add: flag_mask_def MissedReason_members_def)

lemma CallFeatures_mask: "flag_mask CallFeatures_bit CallFeatures_members = 127"
  by (simp add: flag_mask_def CallFeatures_members_def)

lemma decode_flag_string:
  assumes "0 \<le> v" and "v < 10000000"
  shows "decode_value tz TMissedReason (JStr (str_int v)) = Inr (VMissedReason v)"
    and "decode_value tz TCallFeatures (JStr (str_int v)) = Inr (VCallFeatures v)"
proof -
  have "int_of_str (str_int v) = Inr v"
    using assms by (intro int_of_str_small [where k = 7]) simp_all
  then show "decode_value tz TMissedReason (JStr (str_int v)) = Inr (VMissedReason v)"
    and "decode_value tz TCallFeatures (JStr (str_int v)) = Inr (VCallFeatures v)"
    using assms(1)
    by (simp_all add: decode_enum_string is_enum_def flag_member_def flag_call_nonneg)
qed

lemma mr_pairs_value:
  assumes "(a, b) \<in> set (ordered_pairs MissedReason_members)"
  shows "0 \<le> MissedReason_bit a OR MissedReason_bit b
       \<and> MissedReason_bit a OR MissedReason_bit b < 10000000
       \<and> (MissedReason_bit a OR MissedReason_bit b) AND NOT 8323079 = 0
       \<and> flags_in MissedReason_bit MissedReason_members (MissedReason_bit a OR MissedReason_bit b)
           = [a, b]"
  using assms unfolding MissedReason_members_def flags_in_def
  by (simp, elim disjE conjE; hypsubst; simp)

lemma mr_pairs_label:
  assumes "(a, b) \<in> set (ordered_pairs MissedReason_members)"
  shows "MissedReason_str (MissedReason_bit a OR MissedReason_bit b)
         = MissedReason_str (MissedReason_bit a) @ '', '' @ MissedReason_str (MissedReason_bit b)"
  using assms unfolding MissedReason_members_def
  by (simp, elim disjE conjE; hypsubst; code_simp)

lemma cf_pairs_value:
  assumes "(a, b) \<in> set (ordered_pairs CallFeatures_members)"
  shows "0 \<le> CallFeatures_bit a OR CallFeatures_bit b
       \<and> CallFeatures_bit a OR CallFeatures_bit b < 10000000
       \<and> (CallFeatures_bit a OR CallFeatures_bit b) AND NOT 127 = 0
       \<and> flags_in CallFeatures_bit CallFeatures_members (CallFeatures_bit a OR CallFeatures_bit b)
           = [a, b]"
  using assms unfolding CallFeatures_members_def flags_in_def
  by (simp, elim disjE conjE; hypsubst; simp)

lemma cf_pairs_label:
  assumes "(a, b) \<in> set (ordered_pairs CallFeatures_members)"
  shows "CallFeatures_str (CallFeatures_bit a OR CallFeatures_bit b)
         = CallFeatures_str (CallFeatures_bit a) @ '', '' @ CallFeatures_str (CallFeatures_bit b)"
  using assms unfolding CallFeatures_members_def
  by (simp, elim disjE conjE; hypsubst; code_simp)

lemma mr_single_label:
  "MissedReason_str (MissedReason_bit a) = cap_words (py_replace ''_'' '' '' (MissedReason_name a))"
  by (cases a; hypsubst; code_simp)

lemma cf_single_label:
  "CallFeatures_str (CallFeatures_bit a) =
     (case a of RTT \<Rightarrow> ''RTT'' | VOLTE \<Rightarrow> ''VoLTE'' | WIFI \<Rightarrow> ''WiFi''
      | _ \<Rightarrow> cap_words (py_replace ''_'' '' '' (CallFeatures_name a)))"
  by (cases a; hypsubst; code_simp)

text \<open>
  Claim C7.  Let two distinct members of a flag class be given, in the order in which the
  class declares them.  The string of the bitwise combination of their two bits decodes to
  that combination; the members present in it are exactly the two, with no other bit; and
  its cell in the row is the pretty label of the first, a comma and a space, and the pretty
  label of the second.  A pretty label is the member's name with underscores turned into
  spaces and each word capitalised, except that \<^verbatim>\<open>CallFeatures\<close> writes \<^verbatim>\<open>RTT\<close>, \<^verbatim>\<open>VoLTE\<close> and
  \<^verbatim>\<open>WiFi\<close>.
\<close>

theorem two_flags_combined:
  "((a, b) \<in> set (ordered_pairs MissedReason_members) \<longrightarrow>
      decode_value tz TMissedReason (JStr (str_int (MissedReason_bit a OR MissedReason_bit b)))
        = Inr (VMissedReason (MissedReason_bit a OR MissedReason_bit b))
      \<and> flags_in MissedReason_bit MissedReason_members (MissedReason_bit a OR MissedReason_bit b)
          = [a, b]
      \<and> (MissedReason_bit a OR MissedReason_bit b)
            AND NOT (flag_mask MissedReason_bit MissedReason_members) = 0
      \<and> (\<forall>self. self ''missed_reason''
                    = Some (VMissedReason (MissedReason_bit a OR MissedReason_bit b)) \<longrightarrow>
             csv_row self (Some [''missed_reason''])
               = Inr [VStr (cap_words (py_replace ''_'' '' '' (MissedReason_name a)) @ '', ''
                            @ cap_words (py_replace ''_'' '' '' (MissedReason_name b)))]))
   \<and> ((x, y) \<in> set (ordered_pairs CallFeatures_members) \<longrightarrow>
      decode_value tz TCallFeatures (JStr (str_int (CallFeatures_bit x OR CallFeatures_bit y)))
        = Inr (VCallFeatures (CallFeatures_bit x OR CallFeatures_bit y))
      \<and> flags_in CallFeatures_bit CallFeatures_members (CallFeatures_bit x OR CallFeatures_bit y)
          = [x, y]
      \<and> (CallFeatures_bit x OR CallFeatures_bit y)
            AND NOT (flag_mask CallFeatures_bit CallFeatures_members) = 0
      \<and> (\<forall>self. self ''features''
                    = Some (VCallFeatures (CallFeatures_bit x OR CallFeatures_bit y)) \<longrightarrow>
             csv_row self (Some [''features''])
               = Inr [VStr (CallFeatures_str (CallFeatures_bit x) @ '', ''
                            @ CallFeatures_str (CallFeatures_bit y))])
      \<and> CallFeatures_str (CallFeatures_bit x)
          = (case x of RTT \<Rightarrow> ''RTT'' | VOLTE \<Rightarrow> ''VoLTE'' | WIFI \<Rightarrow> ''WiFi''
             | _ \<Rightarrow> cap_words (py_replace ''_'' '' '' (CallFeatures_name x)))
      \<and> CallFeatures_str (CallFeatures_bit y)
          = (case y of RTT \<Rightarrow> ''RTT'' | VOLTE \<Rightarrow> ''VoLTE'' | WIFI \<Rightarrow> ''WiFi''
             | _ \<Rightarrow> cap_words (py_replace ''_'' '' '' (CallFeatures_name y))))"
proof (intro conjI impI allI)
  assume p: "(a, b) \<in> set (ordered_pairs MissedReason_members)"
  let ?v = "MissedReason_bit a OR MissedReason_bit b"
  note v = mr_pairs_value [OF p]
  show "decode_value tz TMissedReason (JStr (str_int ?v)) = Inr (VMissedReason ?v)"
    using v by (intro decode_flag_string) simp_all
  show "flags_in MissedReason_bit MissedReason_members ?v = [a, b]" using v by simp
  show "?v AND NOT (flag_mask MissedReason_bit MissedReason_members) = 0"
    using v by (simp add: MissedReason_mask)
  fix self assume s: "self ''missed_reason'' = Some (VMissedReason ?v)"
  have k: "''missed_reason'' \<in> set (map f_name PhoneCall_fields)" by (simp add: field_names)
  have "csv_row self (Some [''missed_reason'']) = Inr [VStr (MissedReason_str ?v)]"
    using csv_row_plain_column [where self = self, OF k _ s] by simp
  then show "csv_row self (Some [''missed_reason''])
               = Inr [VStr (cap_words (py_replace ''_'' '' '' (MissedReason_name a)) @ '', ''
                            @ cap_words (py_replace ''_'' '' '' (MissedReason_name b)))]"
    by (simp add: mr_pairs_label [OF p] mr_single_label)
next
  assume p: "(x, y) \<in> set (ordered_pairs CallFeatures_members)"
  let ?v = "CallFeatures_bit x OR CallFeatures_bit y"
  note v = cf_pairs_value [OF p]
  show "decode_value tz TCallFeatures (JStr (str_int ?v)) = Inr (VCallFeatures ?v)"
    using v by (intro decode_flag_string) simp_all
  show "flags_in CallFeatures_bit CallFeatures_members ?v = [x, y]" using v by simp
  show "?v AND NOT (flag_mask CallFeatures_bit CallFeatures_members) = 0"
    using v by (simp add: CallFeatures_mask)
  show "CallFeatures_str (CallFeatures_bit x)
          = (case x of RTT \<Rightarrow> ''RTT'' | VOLTE \<Rightarrow> ''VoLTE'' | WIFI \<Rightarrow> ''WiFi''
             | _ \<Rightarrow> cap_words (py_replace ''_'' '' '' (CallFeatures_name x)))"
    by (rule cf_single_label)
  show "CallFeatures_str (CallFeatures_bit y)
          = (case y of RTT \<Rightarrow> ''RTT'' | VOLTE \<Rightarrow> ''VoLTE'' | WIFI \<Rightarrow> ''WiFi''
             | _ \<Rightarrow> cap_words (py_replace ''_'' '' '' (CallFeatures_name y)))"
    by (rule cf_single_label)
  fix self assume s: "self ''features'' = Some (VCallFeatures ?v)"
  have k: "''features'' \<in> set (map f_name PhoneCall_fields)" by (simp add: field_names)
  have "csv_row self (Some [''features'']) = Inr [VStr (CallFeatures_str ?v)]"
    using csv_row_plain_column [where self = self, OF k _ s] by simp
  then show "csv_row self (Some [''features''])
               = Inr [VStr (CallFeatures_str (CallFeatures_bit x) @ '', ''
                            @ CallFeatures_str (CallFeatures_bit y))]"
    by (simp add: cf_pairs_label [OF p])
qed

text \<open>\<^verbatim>\<open>USER_MISSED_NO_ANSWER | USER_MISSED_SHORT_RING\<close> is 196608, and \<^verbatim>\<open>RTT | VOLTE\<close> is
  96.\<close>

theorem two_flags_combined_witness:
  "decode_value sample_to_local TMissedReason (JStr ''196608'') = Inr (VMissedReason 196608)
   \<and> flags_in MissedReason_bit MissedReason_members 196608
       = [USER_MISSED_NO_ANSWER, USER_MISSED_SHORT_RING]
   \<and> csv_row sample_call (Some [''missed_reason''])
       = Inr [VStr ''User Missed No Answer, User Missed Short Ring'']
   \<and> decode_value sample_to_local TCallFeatures (JStr ''96'') = Inr (VCallFeatures 96)
   \<and> flags_in CallFeatures_bit CallFeatures_members 96 = [RTT, VOLTE]
   \<and> csv_row (sample_call(''features'' \<mapsto> VCallFeatures 96)) (Some [''features''])
       = Inr [VStr ''RTT, VoLTE'']"
proof -
  have p: "(USER_MISSED_NO_ANSWER, USER_MISSED_SHORT_RING) \<in> set (ordered_pairs MissedReason_members)"
    by (simp add: MissedReason_members_def)
  have q: "(RTT, VOLTE) \<in> set (ordered_pairs CallFeatures_members)"
    by (simp add: CallFeatures_members_def)
  have v: "MissedReason_bit USER_MISSED_NO_ANSWER OR MissedReason_bit USER_MISSED_SHORT_RING = 196608"
    and w: "CallFeatures_bit RTT OR CallFeatures_bit VOLTE = 96"
    by simp_all
  have s: "str_int 196608 = ''196608''" and t: "str_int 96 = ''96''"
    by (simp_all add: str_int_def str_nat.simps digit_char_def)
  have l: "cap_words (py_replace ''_'' '' '' (MissedReason_name USER_MISSED_NO_ANSWER)) @ '', ''
           @ cap_words (py_replace ''_'' '' '' (MissedReason_name USER_MISSED_SHORT_RING))
           = ''User Missed No Answer, User Missed Short Ring''"
    by code_simp
  have m: "sample_call ''missed_reason'' = Some (VMissedReason 196608)"
    and f: "(sample_call(''features'' \<mapsto> VCallFeatures 96)) ''features'' = Some (VCallFeatures 96)"
    by (simp_all add: sample_call_def)
  note th = two_flags_combined [where a = USER_MISSED_NO_ANSWER and b = USER_MISSED_SHORT_RING
      and x = RTT and y = VOLTE and tz = sample_to_local]
  from conjunct1 [OF th] p
  have a: "decode_value sample_to_local TMissedReason (JStr ''196608'') = Inr (VMissedReason 196608)"
    and b: "flags_in MissedReason_bit MissedReason_members 196608
            = [USER_MISSED_NO_ANSWER, USER_MISSED_SHORT_RING]"
    and c: "\<forall>self. self ''missed_reason'' = Some (VMissedReason 196608) \<longrightarrow>
              csv_row self (Some [''missed_reason''])
              = Inr [VStr ''User Missed No Answer, User Missed Short Ring'']"
    unfolding v s l by blast+
  from conjunct2 [OF th] q
  have d: "decode_value sample_to_local TCallFeatures (JStr ''96'') = Inr (VCallFeatures 96)"
    and e: "flags_in CallFeatures_bit CallFeatures_members 96 = [RTT, VOLTE]"
    and g: "\<forall>self. self ''features'' = Some (VCallFeatures 96) \<longrightarrow>
              csv_row self (Some [''features''])
              = Inr [VStr (CallFeatures_str (CallFeatures_bit RTT) @ '', ''
                           @ CallFeatures_str (CallFeatures_bit VOLTE))]"
    and h: "CallFeatures_str (CallFeatures_bit RTT) = ''RTT''"
           "CallFeatures_str (CallFeatures_bit VOLTE) = ''VoLTE''"
    unfolding w t by simp_all
  from c m have c': "csv_row sample_call (Some [''missed_reason''])
                     = Inr [VStr ''User Missed No Answer, User Missed Short Ring'']" by blast
  from g f have "csv_row (sample_call(''features'' \<mapsto> VCallFeatures 96)) (Some [''features''])
                 = Inr [VStr (CallFeatures_str (CallFeatures_bit RTT) @ '', ''
                           @ CallFeatures_str (CallFeatures_bit VOLTE))]" by blast
  then have g': "csv_row (sample_call(''features'' \<mapsto> VCallFeatures 96)) (Some [''features''])
                 = Inr [VStr ''RTT, VoLTE'']" unfolding h by simp
  from a b c' d e g' show ?thesis by blast
qed

section \<open>Required and optional fields\<close>

text \<open>
  Claim C8, as the code has it.  When a field without default is absent from the input
  dictionary, decoding fails; when a field with a default is absent and decoding succeeds,
  the attribute holds the default; and decoding succeeds exactly when every field without
  default is present and every field that is present, with or without default, has a raw
  value that the decoder accepts.
\<close>

theorem from_json_presence:
  "(\<forall>f \<in> set PhoneCall_fields.
      f_default f = None \<and> obj (f_name f) = None \<longrightarrow> isl (fst (from_json tz (JOne obj))))
   \<and> (\<forall>f \<in> set PhoneCall_fields. \<forall>c objs' out.
        from_json tz (JOne obj) = (Inr (One c), objs', out) \<and> obj (f_name f) = None
          \<longrightarrow> f_default f \<noteq> None \<and> c (f_name f) = f_default f)
   \<and> ((\<exists>c objs' out. from_json tz (JOne obj) = (Inr (One c), objs', out))
        \<longleftrightarrow> list_all (field_ok tz obj) PhoneCall_fields)"
proof (intro conjI ballI allI impI)
  fix f assume f: "f \<in> set PhoneCall_fields" and "f_default f = None \<and> obj (f_name f) = None"
  then have "\<not> field_ok tz obj f" by (simp add: field_ok_def)
  with f show "isl (fst (from_json tz (JOne obj)))" by (rule from_json_fails_unless_ok)
next
  fix f c objs' out
  assume f: "f \<in> set PhoneCall_fields"
    and h: "from_json tz (JOne obj) = (Inr (One c), objs', out) \<and> obj (f_name f) = None"
  from from_json_one_attribute [OF conjunct1 [OF h] f] h
  show "f_default f \<noteq> None" and "c (f_name f) = f_default f" by simp_all
next
  show "(\<exists>c objs' out. from_json tz (JOne obj) = (Inr (One c), objs', out))
        \<longleftrightarrow> list_all (field_ok tz obj) PhoneCall_fields"
    by (rule from_json_one_succeeds_iff)
qed

text \<open>The sample dictionary without \<^verbatim>\<open>number\<close> is refused; the sample dictionary is
  decoded, and its absent fields \<^verbatim>\<open>subject\<close> and \<^verbatim>\<open>geocoded_location\<close> take their defaults.\<close>

theorem from_json_presence_witness:
  "isl (fst (from_json sample_to_local (JOne (sample_obj(''number'' := None)))))
   \<and> (\<exists>c objs' out. from_json sample_to_local (JOne sample_obj) = (Inr (One c), objs', out)
         \<and> c ''subject'' = Some VNone \<and> c ''geocoded_location'' = Some (VStr []))"
proof -
  have num: "fld ''number'' TStr \<in> set PhoneCall_fields"
    and subj: "fld_d ''subject'' TStr VNone \<in> set PhoneCall_fields"
    and geo: "fld_d ''geocoded_location'' TStr (VStr []) \<in> set PhoneCall_fields"
    by (simp_all add: PhoneCall_fields_def)
  note p = from_json_presence [of "sample_obj(''number'' := None)" sample_to_local]
  have "f_default (fld ''number'' TStr) = None
          \<and> (sample_obj(''number'' := None)) (f_name (fld ''number'' TStr)) = None
        \<longrightarrow> isl (fst (from_json sample_to_local (JOne (sample_obj(''number'' := None)))))"
    using conjunct1 [OF p] num by (rule bspec)
  moreover have "f_default (fld ''number'' TStr) = None
          \<and> (sample_obj(''number'' := None)) (f_name (fld ''number'' TStr)) = None"
    by (simp add: fld_def)
  ultimately have a: "isl (fst (from_json sample_to_local (JOne (sample_obj(''number'' := None)))))"
    by (rule mp)
  note q = from_json_presence [of sample_obj sample_to_local]
  have "list_all (field_ok sample_to_local sample_obj) PhoneCall_fields"
    by (rule sample_obj_ok)
  with q obtain c objs' out where
    ok: "from_json sample_to_local (JOne sample_obj) = (Inr (One c), objs', out)" by blast
  note defaults = conjunct1 [OF conjunct2 [OF q]]
  have s1: "sample_obj (f_name (fld_d ''subject'' TStr VNone)) = None"
    and s2: "sample_obj (f_name (fld_d ''geocoded_location'' TStr (VStr []))) = None"
    by (simp_all add: fld_d_def sample_obj_def)
  have "c (f_name (fld_d ''subject'' TStr VNone)) = f_default (fld_d ''subject'' TStr VNone)"
    using bspec [OF defaults subj] ok s1 by blast
  then have "c ''subject'' = Some VNone" by (simp add: fld_d_def)
  moreover have "c (f_name (fld_d ''geocoded_location'' TStr (VStr [])))
                 = f_default (fld_d ''geocoded_location'' TStr (VStr []))"
    using bspec [OF defaults geo] ok s2 by blast
  then have "c ''geocoded_location'' = Some (VStr [])" by (simp add: fld_d_def)
  ultimately show ?thesis using a ok by blast
qed

text \<open>
  An optional field that is present with a bad value: in the sample dictionary with
  \<^verbatim>\<open>numbertype = "99"\<close> every field without default is present and decodable, and
  decoding fails.
\<close>

theorem optional_field_counterexample:
  "required_ok sample_to_local (sample_obj(''numbertype'' \<mapsto> JStr ''99''))
   \<and> isl (fst (from_json sample_to_local (JOne (sample_obj(''numbertype'' \<mapsto> JStr ''99'')))))"
proof -
  have "required_ok sample_to_local (sample_obj(''numbertype'' \<mapsto> JStr ''99''))"
    by (simp add: required_ok_def eval_field sample_obj_def)
  moreover have nt: "fld_d ''numbertype'' TNumberType VNone \<in> set PhoneCall_fields"
    by (simp add: PhoneCall_fields_def)
  have "\<not> field_ok sample_to_local (sample_obj(''numbertype'' \<mapsto> JStr ''99''))
            (fld_d ''numbertype'' TNumberType VNone)"
    by (simp add: eval_field)
  with nt have "isl (fst (from_json sample_to_local
                     (JOne (sample_obj(''numbertype'' \<mapsto> JStr ''99'')))))"
    by (rule from_json_fails_unless_ok)
  ultimately show ?thesis by simp
qed

section \<open>Side effects of decoding\<close>

text \<open>
  Claim C9.  \<^verbatim>\<open>from_json\<close> changes the dictionaries it is given: after a successful
  decoding (of one dictionary or of a list) every input dictionary has lost exactly the
  keys that are fields of the record, popped one by one; the other keys are untouched.
\<close>

theorem from_json_pops_fields:
  assumes "from_json tz doc = (Inr r, objs', out)"
  shows "objs' = map without_fields (objs_of doc)"
proof (cases doc)
  case (JOne obj)
  with assms obtain call obj' where
    "decode_fields tz None PhoneCall_fields obj Map.empty [] = (Inr call, obj', out)"
    and "objs' = [obj']"
    unfolding from_json_one by (auto split: prod.splits sum.splits)
  with decode_fields_out_obj [of tz None PhoneCall_fields obj Map.empty "[]" call obj' out] JOne
  show ?thesis by (simp add: without_fields_def field_names_set_def)
next
  case (JMany objs)
  with assms obtain cs where "decode_all tz True objs [] [] = (Inr cs, objs', out)"
    by (auto split: prod.splits sum.splits)
  from decode_all_Inr [OF this] JMany show ?thesis
    by (simp add: without_fields_def field_names_set_def)
qed

text \<open>Two copies of the sample dictionary: both come back without \<^verbatim>\<open>date\<close> (and the other
  fields) and still with the foreign key \<^verbatim>\<open>sim_slot\<close>.\<close>

theorem from_json_pops_fields_witness:
  "\<exists>cs. from_json sample_to_local (JMany [sample_obj, sample_obj])
          = (Inr (Many cs), [without_fields sample_obj, without_fields sample_obj], [])
     \<and> without_fields sample_obj ''date'' = None
     \<and> sample_obj ''date'' = Some (JStr ''1709636400000'')
     \<and> without_fields sample_obj ''sim_slot'' = Some (JStr ''0'')"
proof -
  have "\<exists>r. fst (from_json sample_to_local (JMany [sample_obj, sample_obj])) = Inr r"
    unfolding from_json_succeeds_iff using sample_obj_ok by simp
  then obtain r objs' out where
    ok: "from_json sample_to_local (JMany [sample_obj, sample_obj]) = (Inr r, objs', out)"
    by (metis prod.collapse)
  from from_json_pops_fields [OF ok]
  have objs': "objs' = [without_fields sample_obj, without_fields sample_obj]" by simp
  from from_json_result_kind [OF ok] obtain cs where r: "r = Many cs" by auto
  from ok obtain cs' where "decode_all sample_to_local True [sample_obj, sample_obj] [] [] = (Inr cs', objs', out)"
    by (auto split: prod.splits sum.splits)
  from decode_all_Inr [OF this] have out: "out = []" by simp
  have "without_fields sample_obj ''date'' = None"
    by (simp add: without_fields_def field_names_set_def field_names)
  moreover have "sample_obj ''date'' = Some (JStr ''1709636400000'')"
    by (simp add: sample_obj_def)
  moreover have "without_fields sample_obj ''sim_slot'' = Some (JStr ''0'')"
    by (simp add: without_fields_def field_names_set_def field_names sample_obj_def)
  ultimately show ?thesis using ok r objs' out by auto
qed

section \<open>Zero values\<close>

text \<open>
  Claim C10.  In any column other than \<^verbatim>\<open>date\<close>, a flag value of zero (\<^verbatim>\<open>MissedReason\<close>
  \<^verbatim>\<open>NOT_MISSED\<close>, or the empty \<^verbatim>\<open>CallFeatures\<close>) and the \<^verbatim>\<open>NumberType\<close> of value 0 are
  rendered as the empty string, not as a capitalised label.
\<close>

theorem zero_values_render_empty:
  assumes "k \<in> field_names_set" and "k \<noteq> ''date''" and "self k = Some v"
    and "v = VMissedReason 0 \<or> v = VCallFeatures 0 \<or> v = VNumberType NT_NONE"
  shows "csv_row self (Some [k]) = Inr [VStr []]"
proof -
  have k: "k \<in> set (map f_name PhoneCall_fields)" using assms(1) by (simp add: field_names_set_def)
  have "MissedReason_str 0 = []" by (simp add: MissedReason_str_def PrettyFlag_str_def)
  moreover have "CallFeatures_str 0 = []"
    by (simp add: CallFeatures_str_def PrettyFlag_str_def py_replace_def)
  moreover have "NumberType_str NT_NONE = []" by (simp add: NumberType_str_def)
  ultimately show ?thesis
    using csv_row_plain_column [where self = self, OF k assms(2,3)] assms(4) by auto
qed

text \<open>The raw string \<^verbatim>\<open>"0"\<close> decodes to these three values, and each is rendered empty in
  its own column.\<close>

theorem zero_values_render_empty_witness:
  "decode_value sample_to_local TMissedReason (JStr ''0'') = Inr (VMissedReason 0)
   \<and> decode_value sample_to_local TCallFeatures (JStr ''0'') = Inr (VCallFeatures 0)
   \<and> decode_value sample_to_local TNumberType (JStr ''0'') = Inr (VNumberType NT_NONE)
   \<and> csv_row (sample_call(''missed_reason'' \<mapsto> VMissedReason 0)) (Some [''missed_reason''])
       = Inr [VStr []]
   \<and> csv_row (sample_call(''features'' \<mapsto> VCallFeatures 0)) (Some [''features''])
       = Inr [VStr []]
   \<and> csv_row (sample_call(''numbertype'' \<mapsto> VNumberType NT_NONE)) (Some [''numbertype''])
       = Inr [VStr []]"
proof -
  have names: "''missed_reason'' \<in> field_names_set" "''features'' \<in> field_names_set"
    "''numbertype'' \<in> field_names_set"
    by (simp_all add: field_names_set_def field_names)
  have bl: "bit_length 8323079 = 23" "bit_length 127 = 7"
    by (simp_all add: bit_length.simps)
  have masks: "flag_mask MissedReason_bit MissedReason_members = 8323079"
    "flag_mask CallFeatures_bit CallFeatures_members = 127"
    by (simp_all add: flag_mask_def MissedReason_members_def CallFeatures_members_def)
  have d: "decode_value sample_to_local TMissedReason (JStr ''0'') = Inr (VMissedReason 0)"
    "decode_value sample_to_local TCallFeatures (JStr ''0'') = Inr (VCallFeatures 0)"
    "decode_value sample_to_local TNumberType (JStr ''0'') = Inr (VNumberType NT_NONE)"
    by (simp_all add: eval_field flag_call_def masks bl)
  show ?thesis
    using zero_values_render_empty [where self = "sample_call(''missed_reason'' \<mapsto> VMissedReason 0)"
            and k = "''missed_reason''" and v = "VMissedReason 0", OF names(1)]
      zero_values_render_empty [where self = "sample_call(''features'' \<mapsto> VCallFeatures 0)"
            and k = "''features''" and v = "VCallFeatures 0", OF names(2)]
      zero_values_render_empty [where self = "sample_call(''numbertype'' \<mapsto> VNumberType NT_NONE)"
            and k = "''numbertype''" and v = "VNumberType NT_NONE", OF names(3)]
      d
    by simp
qed

end
